theory Spec2Isabelle
  imports Main "HOL-Library.Char_ord" "HOL-Library.List_Lexorder"
begin

section \<open>Python values used by the services\<close>

text \<open>
  Exceptions are values: every constructor is an exception class and carries the text
  that \<open>str(e)\<close> gives. \<open>HTTPException\<close> carries the status code and the detail, and
  its text is the two joined by a colon.
\<close>

datatype exn =
    Exception string
  | ValueError string
  | TypeError string
  | IntegrityError string
  | HTTPException nat string

definition digit_char :: "nat \<Rightarrow> char" where
  "digit_char d = char_of (48 + d)"

function str_nat :: "nat \<Rightarrow> string" where
  "str_nat n = (if n < 10 then [digit_char n] else str_nat (n div 10) @ [digit_char (n mod 10)])"
  by pat_completeness auto
termination
  by (relation "measure id") auto

declare str_nat.simps [simp del]

fun str_exn :: "exn \<Rightarrow> string" where
  "str_exn (Exception m) = m"
| "str_exn (ValueError m) = m"
| "str_exn (TypeError m) = m"
| "str_exn (IntegrityError m) = m"
| "str_exn (HTTPException c m) = str_nat c @ '': '' @ m"

text \<open>\<open>list.index(x)\<close>: the first position of \<open>x\<close>, \<open>None\<close> where Python raises ValueError.\<close>

fun index_of :: "'a list \<Rightarrow> 'a \<Rightarrow> nat option" where
  "index_of [] x = None"
| "index_of (y # ys) x = (if y = x then Some 0 else map_option Suc (index_of ys x))"

text \<open>\<open>list.pop(i)\<close> for an index in range, and \<open>list.insert(i, v)\<close>.\<close>

definition list_pop :: "'a list \<Rightarrow> nat \<Rightarrow> 'a \<times> 'a list" where
  "list_pop xs i = (xs ! i, take i xs @ drop (Suc i) xs)"

definition list_insert :: "'a list \<Rightarrow> nat \<Rightarrow> 'a \<Rightarrow> 'a list" where
  "list_insert xs i v = take i xs @ [v] @ drop i xs"

text \<open>
  \<open>sorted(xs, key=key, reverse=reverse)\<close>. Python's sort is stable, and with
  \<open>reverse=True\<close> it still keeps equal keys in their original order: CPython reverses the
  list, sorts it stably and reverses the result.
\<close>

definition sorted_py :: "('a \<Rightarrow> 'k::linorder) \<Rightarrow> bool \<Rightarrow> 'a list \<Rightarrow> 'a list" where
  "sorted_py key reverse xs =
     (if reverse then rev (sort_key key (rev xs)) else sort_key key xs)"

section \<open>Tracks and sort keys (services/sort\_service.py)\<close>

text \<open>
  A track is the dictionary the remote API returns for a playlist item. A field that is
  \<open>None\<close> is a key whose value is null (or that is absent where the code reads it with
  \<open>get\<close>). Strings are sequences of 8-bit characters, and \<open>lower\<close> folds the ASCII
  letters.
\<close>

record artist =
  artist_name :: "string option"

record album =
  album_name :: "string option"
  album_release_date :: "string option"

record track =
  t_id :: "string option"
  t_name :: "string option"
  t_uri :: "string option"
  t_artists :: "artist list option"
  t_album :: "album option"
  t_duration_ms :: "int option"
  t_added_at :: "string option"

definition lower_char :: "char \<Rightarrow> char" where
  "lower_char c =
     (if CHR ''A'' \<le> c \<and> c \<le> CHR ''Z'' then char_of (of_char c + (32::nat)) else c)"

definition lower :: "string \<Rightarrow> string" where
  "lower s = map lower_char s"

text \<open>
  The end of \<open>safe_get\<close>: a null value gives the default, and so does a falsy one
  (\<open>return value or default\<close>).
\<close>

definition or_default :: "string option \<Rightarrow> string \<Rightarrow> string" where
  "or_default v d = (case v of None \<Rightarrow> d | Some s \<Rightarrow> if s = [] then d else s)"

text \<open>
  A sort key is a string (title, artist, album, release date, date added) or an integer
  (duration). One sort only ever compares keys of one kind; the order between the two
  kinds, which Python does not define, is fixed arbitrarily to make the type linear.
\<close>

datatype sort_key = KInt int | KStr string

instantiation sort_key :: linorder
begin

fun less_eq_sort_key :: "sort_key \<Rightarrow> sort_key \<Rightarrow> bool" where
  "less_eq_sort_key (KInt a) (KInt b) = (a \<le> b)"
| "less_eq_sort_key (KStr a) (KStr b) = (a \<le> b)"
| "less_eq_sort_key (KInt a) (KStr b) = True"
| "less_eq_sort_key (KStr a) (KInt b) = False"

definition less_sort_key :: "sort_key \<Rightarrow> sort_key \<Rightarrow> bool" where
  "less_sort_key x y = (x \<le> y \<and> \<not> y \<le> x)"

instance
proof
  fix x y z :: sort_key
  show "(x < y) = (x \<le> y \<and> \<not> y \<le> x)"
    by (simp add: less_sort_key_def)
  show "x \<le> x"
    by (cases x) simp_all
  show "x \<le> y \<Longrightarrow> y \<le> z \<Longrightarrow> x \<le> z"
    by (cases x; cases y; cases z) simp_all
  show "x \<le> y \<Longrightarrow> y \<le> x \<Longrightarrow> x = y"
    by (cases x; cases y) simp_all
  show "x \<le> y \<or> y \<le> x"
    by (cases x; cases y) auto
qed

end

definition key_title :: "track \<Rightarrow> sort_key" where
  "key_title t = KStr (lower (or_default (t_name t) ''''))"

definition key_artist :: "track \<Rightarrow> sort_key" where
  "key_artist t =
     (case t_artists t of
        None \<Rightarrow> KStr (lower '''')
      | Some [] \<Rightarrow> KStr (lower '''')
      | Some (a # _) \<Rightarrow> KStr (lower (or_default (artist_name a) '''')))"

definition key_album :: "track \<Rightarrow> sort_key" where
  "key_album t =
     (case t_album t of
        None \<Rightarrow> KStr (lower '''')
      | Some al \<Rightarrow> KStr (lower (or_default (album_name al) '''')))"

definition key_release_date :: "track \<Rightarrow> sort_key" where
  "key_release_date t =
     (case t_album t of
        None \<Rightarrow> KStr ''0000-00-00''
      | Some al \<Rightarrow> KStr (or_default (album_release_date al) ''0000-00-00''))"

definition key_date_added :: "track \<Rightarrow> sort_key" where
  "key_date_added t = KStr (or_default (t_added_at t) ''1970-01-01T00:00:00Z'')"

definition key_duration :: "track \<Rightarrow> sort_key" where
  "key_duration t = KInt (case t_duration_ms t of None \<Rightarrow> 0 | Some d \<Rightarrow> d)"

definition get_sort_key_function ::
  "string \<Rightarrow> string \<Rightarrow> exn + ((track \<Rightarrow> sort_key) \<times> bool)" where
  "get_sort_key_function sort_by direction =
     (let reverse = (direction = ''desc'') in
      if sort_by = ''title'' then Inr (key_title, reverse)
      else if sort_by = ''artist'' then Inr (key_artist, reverse)
      else if sort_by = ''album'' then Inr (key_album, reverse)
      else if sort_by = ''release_date'' then Inr (key_release_date, reverse)
      else if sort_by = ''date_added'' then Inr (key_date_added, reverse)
      else if sort_by = ''duration'' then Inr (key_duration, reverse)
      else Inl (ValueError (''Unknown sort_by value: '' @ sort_by)))"

definition calculate_moves_needed :: "track list \<Rightarrow> track list \<Rightarrow> nat" where
  "calculate_moves_needed current_order sorted_order =
     length (filter (\<lambda>(current, sorted_track). t_id current \<noteq> t_id sorted_track)
               (zip current_order sorted_order))"

section \<open>The remote playlist\<close>

text \<open>
  The Spotify client \<open>sp\<close>, restricted to the playlist a call works on. The playlist is
  a list of items; an item carries a track (null for an item the service cannot play) and
  the time it was added. Each change of the playlist gives it a new version, and
  \<open>sp_snapshot_id\<close> is the opaque token the service shows for a version; nothing is
  assumed about the tokens. \<open>sp_catalog\<close> is the track the service stores under a URI,
  and \<open>sp_calls\<close> is the list of the changing calls received so far.
\<close>

record entry =
  e_track :: "track option"
  e_added_at :: "string option"

datatype api_call =
    ReplaceItems "string list"
  | AddItems "string list" "nat option"
  | ReorderItems nat nat nat

record spotify =
  sp_items :: "entry list"
  sp_version :: nat
  sp_snapshot_id :: "nat \<Rightarrow> string option"
  sp_catalog :: "string \<Rightarrow> track"
  sp_calls :: "api_call list"

definition playlist_snapshot_id :: "spotify \<Rightarrow> string option" where
  "playlist_snapshot_id sp = sp_snapshot_id sp (sp_version sp)"

text \<open>
  The reorder call of the remote API: the items \<open>range_start ..< range_start +
  range_length\<close> are taken out and put back before the item that stood at
  \<open>insert_before\<close> in the order before the call.
\<close>

definition reorder_list :: "'a list \<Rightarrow> nat \<Rightarrow> nat \<Rightarrow> nat \<Rightarrow> 'a list" where
  "reorder_list xs range_start insert_before range_length =
     (let block = take range_length (drop range_start xs);
          rest = take range_start xs @ drop (range_start + range_length) xs;
          pos = (if range_start < insert_before then insert_before - range_length
                 else insert_before)
      in take pos rest @ block @ drop pos rest)"

definition playlist_reorder_items :: "spotify \<Rightarrow> nat \<Rightarrow> nat \<Rightarrow> nat \<Rightarrow> spotify" where
  "playlist_reorder_items sp range_start insert_before range_length =
     sp\<lparr>sp_items := reorder_list (sp_items sp) range_start insert_before range_length,
        sp_version := Suc (sp_version sp),
        sp_calls := sp_calls sp @ [ReorderItems range_start insert_before range_length]\<rparr>"

definition new_entry :: "spotify \<Rightarrow> string \<Rightarrow> entry" where
  "new_entry sp u = \<lparr>e_track = Some (sp_catalog sp u), e_added_at = None\<rparr>"

definition playlist_replace_items :: "spotify \<Rightarrow> string list \<Rightarrow> spotify" where
  "playlist_replace_items sp uris =
     sp\<lparr>sp_items := map (new_entry sp) uris,
        sp_version := Suc (sp_version sp),
        sp_calls := sp_calls sp @ [ReplaceItems uris]\<rparr>"

definition playlist_add_items :: "spotify \<Rightarrow> string list \<Rightarrow> nat option \<Rightarrow> spotify" where
  "playlist_add_items sp uris position =
     sp\<lparr>sp_items :=
          (case position of
             None \<Rightarrow> sp_items sp @ map (new_entry sp) uris
           | Some p \<Rightarrow> take p (sp_items sp) @ map (new_entry sp) uris @ drop p (sp_items sp)),
        sp_version := Suc (sp_version sp),
        sp_calls := sp_calls sp @ [AddItems uris position]\<rparr>"

text \<open>
  What the fetch loops keep of an item: the track, with the item's \<open>added_at\<close> stored
  in it; an item without a track is skipped.
\<close>

definition item_track :: "entry \<Rightarrow> track option" where
  "item_track item =
     (case e_track item of
        None \<Rightarrow> None
      | Some t \<Rightarrow> Some (t\<lparr>t_added_at := e_added_at item\<rparr>))"

definition item_tracks :: "entry list \<Rightarrow> track list" where
  "item_tracks items = List.map_filter item_track items"

section \<open>The preserve strategy (sort\_playlist\_preserve\_dates)\<close>

text \<open>
  The function returns nothing; what it leaves behind is the remote playlist and whatever
  the progress callback did to the state \<open>'s\<close> it works on. The outcome says whether the
  call returned or raised. \<open>should_cancel\<close> is asked once per target position; its
  answer there is \<open>should_cancel target_pos\<close>. The pause after every tenth move changes
  no state and is left out.
\<close>

datatype outcome = Returned | Raised exn

text \<open>The list of \<open>(index, track, sort_key)\<close> triples the strategy sorts.\<close>

definition indexed_tracks ::
  "(track \<Rightarrow> sort_key) \<Rightarrow> track list \<Rightarrow> (nat \<times> track \<times> sort_key) list" where
  "indexed_tracks key_func tracks = map (\<lambda>(i, t). (i, t, key_func t)) (enumerate 0 tracks)"

type_synonym 's progress_callback = "nat \<Rightarrow> string \<Rightarrow> 's \<Rightarrow> 's"

fun preserve_loop ::
  "'s progress_callback option \<Rightarrow> (nat \<Rightarrow> bool) option \<Rightarrow> nat \<Rightarrow>
   (nat \<times> nat \<times> track \<times> sort_key) list \<Rightarrow> nat list \<Rightarrow> nat \<Rightarrow> spotify \<Rightarrow> 's \<Rightarrow>
   outcome \<times> spotify \<times> 's" where
  "preserve_loop progress_callback should_cancel moves_needed [] current_positions moves_made sp s =
     (Returned, sp, s)"
| "preserve_loop progress_callback should_cancel moves_needed
     ((target_pos, target_orig_idx, target_track, k) # rest) current_positions moves_made sp s =
     (if (case should_cancel of None \<Rightarrow> False | Some c \<Rightarrow> c target_pos) then (Returned, sp, s)
      else
        (case index_of current_positions target_orig_idx of
           None \<Rightarrow> (Raised (ValueError (str_nat target_orig_idx @ '' is not in list'')), sp, s)
         | Some current_pos \<Rightarrow>
             if current_pos \<noteq> target_pos then
               (let sp1 = playlist_reorder_items sp current_pos
                            (if target_pos < current_pos then target_pos else target_pos + 1) 1;
                    (moved_track, popped) = list_pop current_positions current_pos;
                    current_positions1 = list_insert popped target_pos moved_track;
                    moves_made1 = moves_made + 1
                in (case progress_callback of
                      None \<Rightarrow>
                        preserve_loop progress_callback should_cancel moves_needed rest
                          current_positions1 moves_made1 sp1 s
                    | Some cb \<Rightarrow>
                        (case t_name target_track of
                           None \<Rightarrow>
                             (Raised (TypeError (CHR 0x27 # ''NoneType'' @ CHR 0x27 # '' object is not subscriptable'')), sp1, s)
                         | Some nm \<Rightarrow>
                             preserve_loop progress_callback should_cancel moves_needed rest
                               current_positions1 moves_made1 sp1
                               (cb moves_made1
                                  (''Moved track '' @ str_nat moves_made1 @ ''/''
                                     @ str_nat moves_needed @ '': '' @ take 40 nm) s))))
             else
               preserve_loop progress_callback should_cancel moves_needed rest
                 current_positions moves_made sp s))"

definition sort_playlist_preserve_dates ::
  "spotify \<Rightarrow> track list \<Rightarrow> string \<Rightarrow> string \<Rightarrow> 's progress_callback option \<Rightarrow>
   (nat \<Rightarrow> bool) option \<Rightarrow> 's \<Rightarrow> outcome \<times> spotify \<times> 's" where
  "sort_playlist_preserve_dates sp tracks sort_by direction progress_callback should_cancel s =
     (case get_sort_key_function sort_by direction of
        Inl e \<Rightarrow> (Raised e, sp, s)
      | Inr (key_func, reverse) \<Rightarrow>
          (let sorted_indexed = sorted_py (\<lambda>x. snd (snd x)) reverse (indexed_tracks key_func tracks);
               moves_needed =
                 length (filter (\<lambda>(i, orig_idx, _, _). orig_idx \<noteq> i) (enumerate 0 sorted_indexed))
           in if moves_needed = 0 then
                (Returned, sp,
                 (case progress_callback of
                    None \<Rightarrow> s
                  | Some cb \<Rightarrow> cb (length tracks) ''Playlist already sorted'' s))
              else
                preserve_loop progress_callback should_cancel moves_needed
                  (enumerate 0 sorted_indexed) [0..<length tracks] 0 sp s))"

definition single_moves :: "api_call list \<Rightarrow> bool" where
  "single_moves cs = (\<forall>m \<in> set cs. \<exists>c b. m = ReorderItems c b 1)"

definition sorted_tracks :: "string \<Rightarrow> string \<Rightarrow> track list \<Rightarrow> exn + track list" where
  "sorted_tracks sort_by direction tracks =
     (case get_sort_key_function sort_by direction of
        Inl e \<Rightarrow> Inl e
      | Inr (key_func, reverse) \<Rightarrow> Inr (sorted_py key_func reverse tracks))"

definition sort_fields :: "string list" where
  "sort_fields = [''title'', ''artist'', ''album'', ''release_date'', ''date_added'', ''duration'']"

definition example_track :: "string \<Rightarrow> string \<Rightarrow> track" where
  "example_track i nm =
     \<lparr>t_id = Some i, t_name = Some nm, t_uri = Some (''spotify:track:'' @ i),
      t_artists = Some [], t_album = None, t_duration_ms = Some 1000, t_added_at = None\<rparr>"

definition example_sp :: spotify where
  "example_sp =
     \<lparr>sp_items = [\<lparr>e_track = Some (example_track ''1'' ''Zebra''), e_added_at = None\<rparr>,
                  \<lparr>e_track = Some (example_track ''2'' ''apple''), e_added_at = None\<rparr>,
                  \<lparr>e_track = Some (example_track ''3'' ''Mango''), e_added_at = None\<rparr>],
      sp_version = 0,
      sp_snapshot_id = (\<lambda>v. Some (replicate (Suc v) CHR ''v'')),
      sp_catalog = (\<lambda>u. example_track (drop 14 u) []),
      sp_calls = []\<rparr>"

section \<open>The job store (services/job\_service.py)\<close>

text \<open>
  A row of the \<open>sort_jobs\<close> table. A timestamp is the instant it names, in microseconds;
  the ISO texts of UTC instants that the table stores order as the instants do. The table
  is the list of its rows in insertion order. The clock reading \<open>now\<close> and the fresh
  job id drawn by \<open>uuid4\<close> are arguments of the functions that use them.
\<close>

datatype job_status = Pending | InProgress | Completed | Failed | Cancelled

record job =
  job_id :: string
  job_playlist_id :: string
  job_user_id :: string
  job_sort_by :: string
  job_direction :: string
  job_method :: string
  job_status :: job_status
  job_progress :: nat
  job_total :: nat
  job_started_at :: int
  job_updated_at :: int
  job_completed_at :: "int option"
  job_message :: "string option"
  job_error :: "string option"
  job_tracks_to_move :: "nat option"
  job_estimated_time :: "nat option"

definition active_status :: "job_status \<Rightarrow> bool" where
  "active_status st = (st = Pending \<or> st = InProgress)"

text \<open>
  \<open>ORDER BY key DESC LIMIT 1\<close>: a row with the greatest key. SQL leaves the choice
  among equal keys open; the model takes the first such row of the table.
\<close>

fun latest_by :: "('a \<Rightarrow> int) \<Rightarrow> 'a list \<Rightarrow> 'a option" where
  "latest_by f [] = None"
| "latest_by f (x # xs) =
     (case latest_by f xs of
        None \<Rightarrow> Some x
      | Some y \<Rightarrow> if f x < f y then Some y else Some x)"

definition create_job ::
  "int \<Rightarrow> string \<Rightarrow> string \<Rightarrow> string \<Rightarrow> string \<Rightarrow> string \<Rightarrow> string \<Rightarrow> nat \<Rightarrow> nat \<Rightarrow> nat \<Rightarrow>
   job list \<Rightarrow> exn + job list" where
  "create_job now new_job_id playlist_id user_id sort_by direction method total_tracks
     tracks_to_move estimated_time jobs =
     (if new_job_id \<in> job_id ` set jobs then
        Inl (IntegrityError ''UNIQUE constraint failed: sort_jobs.job_id'')
      else
        Inr (jobs @
          [\<lparr>job_id = new_job_id, job_playlist_id = playlist_id, job_user_id = user_id,
            job_sort_by = sort_by, job_direction = direction, job_method = method,
            job_status = Pending, job_progress = 0, job_total = total_tracks,
            job_started_at = now, job_updated_at = now, job_completed_at = None,
            job_message = Some ''Sort job created'', job_error = None,
            job_tracks_to_move = Some tracks_to_move,
            job_estimated_time = Some estimated_time\<rparr>]))"

text \<open>
  \<open>update_job\<close>: the columns whose argument is not \<open>None\<close> are set, \<open>updated_at\<close>
  always, \<open>completed_at\<close> when the new status is terminal. The callers modelled here do
  not use the boolean it returns, so the model returns the table only.
\<close>

definition update_row ::
  "int \<Rightarrow> job_status option \<Rightarrow> nat option \<Rightarrow> string option \<Rightarrow> string option \<Rightarrow> nat option \<Rightarrow>
   job \<Rightarrow> job" where
  "update_row now status progress message error new_total j =
     (let j1 = j\<lparr>job_updated_at := now\<rparr>;
          j2 = (case status of
                  None \<Rightarrow> j1
                | Some st \<Rightarrow>
                    (let j1' = j1\<lparr>job_status := st\<rparr> in
                     if st = Completed \<or> st = Failed \<or> st = Cancelled
                     then j1'\<lparr>job_completed_at := Some now\<rparr> else j1'));
          j3 = (case progress of None \<Rightarrow> j2 | Some p \<Rightarrow> j2\<lparr>job_progress := p\<rparr>);
          j4 = (case message of None \<Rightarrow> j3 | Some m \<Rightarrow> j3\<lparr>job_message := Some m\<rparr>);
          j5 = (case error of None \<Rightarrow> j4 | Some e \<Rightarrow> j4\<lparr>job_error := Some e\<rparr>)
      in (case new_total of None \<Rightarrow> j5 | Some t \<Rightarrow> j5\<lparr>job_total := t\<rparr>))"

definition update_job ::
  "int \<Rightarrow> string \<Rightarrow> job_status option \<Rightarrow> nat option \<Rightarrow> string option \<Rightarrow> string option \<Rightarrow>
   nat option \<Rightarrow> job list \<Rightarrow> job list" where
  "update_job now jid status progress message error new_total jobs =
     map (\<lambda>j. if job_id j = jid then update_row now status progress message error new_total j else j)
       jobs"

definition us_minute :: int where
  "us_minute = 60000000"

definition timeout_minutes :: "nat \<Rightarrow> int" where
  "timeout_minutes total_tracks =
     (if total_tracks < 100 then 2
      else if total_tracks < 500 then 5
      else if total_tracks < 1000 then 10
      else 15)"

text \<open>A pending job is stale when it is older than the timeout for its size.\<close>

definition stale :: "int \<Rightarrow> job \<Rightarrow> bool" where
  "stale now j =
     (job_status j = Pending \<and> now - job_started_at j > timeout_minutes (job_total j) * us_minute)"

definition active_jobs_of_playlist :: "string \<Rightarrow> job list \<Rightarrow> job list" where
  "active_jobs_of_playlist playlist_id jobs =
     filter (\<lambda>j. job_playlist_id j = playlist_id \<and> active_status (job_status j)) jobs"

definition get_active_job_for_playlist :: "int \<Rightarrow> string \<Rightarrow> job list \<Rightarrow> job option \<times> job list" where
  "get_active_job_for_playlist now playlist_id jobs =
     (case latest_by job_started_at (active_jobs_of_playlist playlist_id jobs) of
        None \<Rightarrow> (None, jobs)
      | Some j \<Rightarrow>
          if stale now j then
            (None,
             update_job now (job_id j) (Some Failed) None (Some ''Job failed to start'')
               (Some ''Job timed out - did not start within expected timeframe'') None jobs)
          else (Some j, jobs))"

definition cancel_job :: "int \<Rightarrow> string \<Rightarrow> job list \<Rightarrow> job list" where
  "cancel_job now jid jobs =
     update_job now jid (Some Cancelled) None (Some ''Job cancelled by user'') None None jobs"

definition get_user_active_job_count :: "string \<Rightarrow> job list \<Rightarrow> nat" where
  "get_user_active_job_count user_id jobs =
     length (filter (\<lambda>j. job_user_id j = user_id \<and> active_status (job_status j)) jobs)"

text \<open>
  \<open>recover_interrupted_jobs\<close>: one UPDATE over every pending or running row. The
  statement reads the clock twice, for \<open>updated_at\<close> and for \<open>completed_at\<close>. The
  result is the number of rows changed, and the table.
\<close>

definition recover_interrupted_jobs :: "int \<Rightarrow> int \<Rightarrow> job list \<Rightarrow> nat \<times> job list" where
  "recover_interrupted_jobs now1 now2 jobs =
     (length (filter (\<lambda>j. active_status (job_status j)) jobs),
      map (\<lambda>j. if active_status (job_status j)
               then j\<lparr>job_status := Failed,
                      job_error := Some ''Service restarted while job was running'',
                      job_message := Some ''Job interrupted by service restart'',
                      job_updated_at := now1,
                      job_completed_at := Some now2\<rparr>
               else j) jobs)"

section \<open>The operation log (db/operations.py)\<close>

text \<open>
  The payload of an operation is a JSON object; a key that is absent reads as \<open>None\<close>,
  and as the empty list where the code reads it with \<open>or []\<close>. Of a removed item only
  the URI and the position are read back by undo; the display fields stored with it are
  left out.
\<close>

record removed_item =
  ri_uri :: "string option"
  ri_position :: nat

record payload =
  pl_removed_items :: "removed_item list"
  pl_original_order :: "string list"
  pl_sort_by :: "string option"
  pl_direction :: "string option"
  pl_method :: "string option"
  pl_source :: "string option"
  pl_schedule_id :: "nat option"
  pl_tracks_moved :: "nat option"

record operation =
  op_id :: nat
  op_playlist_id :: string
  op_user_id :: string
  op_type :: string
  op_snapshot_before :: "string option"
  op_snapshot_after :: "string option"
  op_payload :: payload
  op_created_at :: int
  op_expires_at :: int
  op_undone :: bool
  op_changes_made :: bool

definition us_day :: int where
  "us_day = 86400000000"

definition DEFAULT_EXPIRY_DAYS :: int where
  "DEFAULT_EXPIRY_DAYS = 7"

text \<open>The id of a new row is greater than every id in the table (AUTOINCREMENT).\<close>

definition next_op_id :: "operation list \<Rightarrow> nat" where
  "next_op_id ops = Suc (fold max (map op_id ops) 0)"

definition record_operation ::
  "int \<Rightarrow> string \<Rightarrow> string \<Rightarrow> string \<Rightarrow> string option \<Rightarrow> string option \<Rightarrow> payload \<Rightarrow> int \<Rightarrow>
   bool \<Rightarrow> operation list \<Rightarrow> nat \<times> operation list" where
  "record_operation now playlist_id user_id op_ty snapshot_before snapshot_after pl
     expires_days changes_made ops =
     (next_op_id ops,
      ops @ [\<lparr>op_id = next_op_id ops, op_playlist_id = playlist_id, op_user_id = user_id,
               op_type = op_ty, op_snapshot_before = snapshot_before,
               op_snapshot_after = snapshot_after, op_payload = pl, op_created_at = now,
               op_expires_at = now + expires_days * us_day, op_undone = False,
               op_changes_made = changes_made\<rparr>])"

definition undoable :: "int \<Rightarrow> string \<Rightarrow> string \<Rightarrow> operation \<Rightarrow> bool" where
  "undoable now playlist_id user_id op =
     (op_playlist_id op = playlist_id \<and> op_user_id op = user_id \<and> \<not> op_undone op
      \<and> now < op_expires_at op \<and> op_changes_made op)"

definition get_latest_operation :: "int \<Rightarrow> string \<Rightarrow> string \<Rightarrow> operation list \<Rightarrow> operation option" where
  "get_latest_operation now playlist_id user_id ops =
     latest_by op_created_at (filter (undoable now playlist_id user_id) ops)"

definition mark_undone :: "nat \<Rightarrow> operation list \<Rightarrow> operation list" where
  "mark_undone i ops = map (\<lambda>op. if op_id op = i then op\<lparr>op_undone := True\<rparr> else op) ops"

definition cleanup_expired :: "int \<Rightarrow> operation list \<Rightarrow> nat \<times> operation list" where
  "cleanup_expired now ops =
     (length (filter (\<lambda>op. op_expires_at op \<le> now) ops),
      filter (\<lambda>op. \<not> op_expires_at op \<le> now) ops)"

section \<open>The state the services share\<close>

text \<open>
  The two tables, the remote playlist, the keys of \<open>_running_jobs\<close> (the jobs that have
  a cancellation event) and the tasks handed to the worker pool, which runs them later.
  A task is the argument list of \<open>_run_sort_job\<close>; \<open>meta\<close> is the provenance the
  scheduler attaches.
\<close>

record meta =
  meta_source :: "string option"
  meta_schedule_id :: "nat option"

record task =
  task_job_id :: string
  task_playlist_id :: string
  task_user_id :: string
  task_sort_by :: string
  task_direction :: string
  task_method :: string
  task_session_id :: "string option"
  task_meta :: meta

record world =
  w_jobs :: "job list"
  w_operations :: "operation list"
  w_sp :: spotify
  w_running_jobs :: "string list"
  w_submitted :: "task list"

definition start_sort_job :: "task \<Rightarrow> world \<Rightarrow> world" where
  "start_sort_job t w =
     w\<lparr>w_running_jobs := List.insert (task_job_id t) (w_running_jobs w),
       w_submitted := w_submitted w @ [t]\<rparr>"

section \<open>Submitting a sort (routes/sort.py, services/scheduler\_service.py)\<close>

record sort_request =
  req_sort_by :: string
  req_direction :: string
  req_method :: string

record session_manager =
  sm_authenticated :: bool
  sm_user_id :: string
  sm_session_id :: "string option"

record sort_job_response =
  resp_job_id :: string
  resp_status :: job_status
  resp_message :: string

definition MAX_CONCURRENT_JOBS :: nat where
  "MAX_CONCURRENT_JOBS = 2"

definition str_opt :: "string option \<Rightarrow> string" where
  "str_opt v = (case v of None \<Rightarrow> ''None'' | Some s \<Rightarrow> s)"

text \<open>
  The body of \<open>start_sort\<close>, inside its \<open>try\<close>. \<open>client_ok\<close> says whether
  \<open>get_spotify_client\<close> returns a client for the user.
\<close>

definition start_sort_body ::
  "int \<Rightarrow> string \<Rightarrow> string \<Rightarrow> sort_request \<Rightarrow> session_manager \<Rightarrow> bool \<Rightarrow> world \<Rightarrow>
   (exn + sort_job_response) \<times> world" where
  "start_sort_body now new_job_id playlist_id request session_mgr client_ok w =
     (if \<not> sm_authenticated session_mgr then (Inl (HTTPException 401 ''Not authenticated''), w)
      else
        (let user_id = sm_user_id session_mgr;
             active_count = get_user_active_job_count user_id (w_jobs w)
         in if active_count \<ge> MAX_CONCURRENT_JOBS then
              (Inl (HTTPException 429
                 (''You have '' @ str_nat active_count @
                  '' jobs in progress. Please wait for them to complete before starting a new one.'')),
               w)
            else
              (case get_active_job_for_playlist now playlist_id (w_jobs w) of
                 (Some active_job, jobs1) \<Rightarrow>
                   (Inr \<lparr>resp_job_id = job_id active_job, resp_status = job_status active_job,
                         resp_message =
                           ''Sort already in progress: '' @ str_opt (job_message active_job)\<rparr>,
                    w\<lparr>w_jobs := jobs1\<rparr>)
               | (None, jobs1) \<Rightarrow>
                   if \<not> client_ok then
                     (Inl (HTTPException 401 ''Spotify authentication expired''), w\<lparr>w_jobs := jobs1\<rparr>)
                   else
                     (let total_tracks = length (sp_items (w_sp w)) in
                      case create_job now new_job_id playlist_id user_id (req_sort_by request)
                             (req_direction request) (req_method request) total_tracks 0 0 jobs1 of
                        Inl e \<Rightarrow> (Inl e, w\<lparr>w_jobs := jobs1\<rparr>)
                      | Inr jobs2 \<Rightarrow>
                          (Inr \<lparr>resp_job_id = new_job_id, resp_status = Pending,
                                resp_message = ''Sort job started''\<rparr>,
                           start_sort_job
                             \<lparr>task_job_id = new_job_id, task_playlist_id = playlist_id,
                              task_user_id = user_id, task_sort_by = req_sort_by request,
                              task_direction = req_direction request,
                              task_method = req_method request,
                              task_session_id = sm_session_id session_mgr,
                              task_meta = \<lparr>meta_source = None, meta_schedule_id = None\<rparr>\<rparr>
                             (w\<lparr>w_jobs := jobs2\<rparr>))))))"

text \<open>
  \<open>start_sort\<close>: the handler \<open>except Exception\<close> around the body catches the
  HTTP errors the body raises as well, and answers every one of them with status 500.
\<close>

definition start_sort ::
  "int \<Rightarrow> string \<Rightarrow> string \<Rightarrow> sort_request \<Rightarrow> session_manager \<Rightarrow> bool \<Rightarrow> world \<Rightarrow>
   (exn + sort_job_response) \<times> world" where
  "start_sort now new_job_id playlist_id request session_mgr client_ok w =
     (case start_sort_body now new_job_id playlist_id request session_mgr client_ok w of
        (Inl e, w') \<Rightarrow> (Inl (HTTPException 500 (str_exn e)), w')
      | (Inr r, w') \<Rightarrow> (Inr r, w'))"

text \<open>
  The parameters of a schedule: the sort it asks for and its recurrence. A key that is
  absent is \<open>None\<close>.
\<close>

record schedule_params =
  sp_sort_by :: "string option"
  sp_direction :: "string option"
  sp_method :: "string option"
  sp_schedule_type :: "string option"
  sp_hour_of_day :: "int option"
  sp_day_of_week :: "string option"
  sp_day_of_month :: "int option"
  sp_timezone_offset_minutes :: "int option"

definition get_or :: "'a option \<Rightarrow> 'a \<Rightarrow> 'a" where
  "get_or v d = (case v of None \<Rightarrow> d | Some x \<Rightarrow> x)"

definition run_sort_schedule ::
  "int \<Rightarrow> string \<Rightarrow> string \<Rightarrow> string \<Rightarrow> string option \<Rightarrow> schedule_params \<Rightarrow> nat \<Rightarrow> bool \<Rightarrow>
   world \<Rightarrow> outcome \<times> world" where
  "run_sort_schedule now new_job_id playlist_id user_id session_id params schedule_id client_ok w =
     (let sort_by = get_or (sp_sort_by params) ''date_added'';
          direction = get_or (sp_direction params) ''desc'';
          method = get_or (sp_method params) ''preserve''
      in case get_active_job_for_playlist now playlist_id (w_jobs w) of
           (active, jobs1) \<Rightarrow>
             if (case active of None \<Rightarrow> False | Some j \<Rightarrow> job_user_id j = user_id) then
               (Returned, w\<lparr>w_jobs := jobs1\<rparr>)
             else if \<not> client_ok then
               (Raised (Exception ''Spotify authentication expired for scheduled task''),
                w\<lparr>w_jobs := jobs1\<rparr>)
             else
               (let total_tracks = length (sp_items (w_sp w)) in
                case create_job now new_job_id playlist_id user_id sort_by direction method
                       total_tracks 0 0 jobs1 of
                  Inl e \<Rightarrow> (Raised e, w\<lparr>w_jobs := jobs1\<rparr>)
                | Inr jobs2 \<Rightarrow>
                    (Returned,
                     start_sort_job
                       \<lparr>task_job_id = new_job_id, task_playlist_id = playlist_id,
                        task_user_id = user_id, task_sort_by = sort_by,
                        task_direction = direction, task_method = method,
                        task_session_id = session_id,
                        task_meta = \<lparr>meta_source = Some ''scheduled'',
                                     meta_schedule_id = Some schedule_id\<rparr>\<rparr>
                       (w\<lparr>w_jobs := jobs2\<rparr>))))"

text \<open>Startup (main.py, \<open>lifespan\<close>): the interrupted jobs are swept before anything else runs.\<close>

definition lifespan_startup :: "int \<Rightarrow> int \<Rightarrow> world \<Rightarrow> world" where
  "lifespan_startup now1 now2 w = w\<lparr>w_jobs := snd (recover_interrupted_jobs now1 now2 (w_jobs w))\<rparr>"

text \<open>Python's truth value of an optional string: null and the empty string are false.\<close>

definition truthy :: "string option \<Rightarrow> bool" where
  "truthy v = (case v of None \<Rightarrow> False | Some s \<Rightarrow> s \<noteq> [])"

section \<open>The fast strategy (sort\_playlist\_fast)\<close>

text \<open>
  The list of URIs handed to the client library. The library builds the request from
  strings; a null among them makes it raise before anything is sent.
\<close>

fun client_uris :: "string option list \<Rightarrow> exn + string list" where
  "client_uris [] = Inr []"
| "client_uris (None # us) = Inl (TypeError ''expected string or bytes-like object'')"
| "client_uris (Some u # us) =
     (case client_uris us of Inl e \<Rightarrow> Inl e | Inr vs \<Rightarrow> Inr (u # vs))"

function fast_loop ::
  "'s progress_callback option \<Rightarrow> nat \<Rightarrow> string option list \<Rightarrow> nat \<Rightarrow> spotify \<Rightarrow> 's \<Rightarrow>
   outcome \<times> spotify \<times> 's" where
  "fast_loop progress_callback total_batches track_uris i sp s =
     (if i < length track_uris then
        (let batch = take 100 (drop i track_uris);
             batch_num = i div 100 + 1
         in case client_uris batch of
              Inl e \<Rightarrow> (Raised e, sp, s)
            | Inr uris \<Rightarrow>
                if i = 0 then
                  fast_loop progress_callback total_batches track_uris (i + 100)
                    (playlist_replace_items sp uris)
                    (case progress_callback of
                       None \<Rightarrow> s
                     | Some cb \<Rightarrow>
                         cb (length batch)
                           (''Replaced first '' @ str_nat (length batch) @ '' tracks'') s)
                else
                  fast_loop progress_callback total_batches track_uris (i + 100)
                    (playlist_add_items sp uris None)
                    (case progress_callback of
                       None \<Rightarrow> s
                     | Some cb \<Rightarrow>
                         cb (i + length batch)
                           (''Added batch '' @ str_nat batch_num @ ''/'' @ str_nat total_batches)
                           s))
      else (Returned, sp, s))"
  by pat_completeness auto
termination
  by (relation "measure (\<lambda>(cb, tb, track_uris, i, sp, s). length track_uris - i)") auto

declare fast_loop.simps [simp del]

definition sort_playlist_fast ::
  "spotify \<Rightarrow> track list \<Rightarrow> string \<Rightarrow> string \<Rightarrow> 's progress_callback option \<Rightarrow> 's \<Rightarrow>
   outcome \<times> spotify \<times> 's" where
  "sort_playlist_fast sp tracks sort_by direction progress_callback s =
     (case get_sort_key_function sort_by direction of
        Inl e \<Rightarrow> (Raised e, sp, s)
      | Inr (key_func, reverse) \<Rightarrow>
          (let sorted_tracks = sorted_py key_func reverse tracks;
               track_uris = map t_uri sorted_tracks;
               batch_size = 100;
               total_batches = (length track_uris + batch_size - 1) div batch_size
           in fast_loop progress_callback total_batches track_uris 0 sp s))"

section \<open>Running a job (services/task\_executor.py, \<open>_run_sort_job\<close>)\<close>

text \<open>
  The cancellation event is set by another thread. The model is given its value at each
  place the job reads it: before the page fetched at an offset, before the move for a
  target position, inside the progress callback for a progress value, and after the
  strategy has returned.
\<close>

datatype checkpoint = AtFetch nat | AtMove nat | AtProgress nat | AtFinal

definition job_progress_callback ::
  "(checkpoint \<Rightarrow> bool) \<Rightarrow> int \<Rightarrow> string \<Rightarrow> (job list) progress_callback" where
  "job_progress_callback cancel_event now jid current message jobs =
     (if \<not> cancel_event (AtProgress current)
      then update_job now jid None (Some current) (Some message) None None jobs
      else jobs)"

text \<open>
  The fetch loop: pages of 100 items until a page is short. The result is \<open>None\<close> when
  the job was cancelled while fetching.
\<close>

function fetch_playlist_tracks ::
  "(checkpoint \<Rightarrow> bool) \<Rightarrow> int \<Rightarrow> string \<Rightarrow> spotify \<Rightarrow> nat \<Rightarrow> track list \<Rightarrow> job list \<Rightarrow>
   track list option \<times> job list" where
  "fetch_playlist_tracks cancel_event now jid sp offset tracks jobs =
     (if cancel_event (AtFetch offset) then
        (None, update_job now jid (Some Cancelled) None (Some ''Cancelled by user'') None None jobs)
      else
        (let items = take 100 (drop offset (sp_items sp));
             tracks1 = tracks @ item_tracks items
         in if length items < 100 then (Some tracks1, jobs)
            else
              fetch_playlist_tracks cancel_event now jid sp (offset + 100) tracks1
                (update_job now jid None None
                   (Some (''Fetching tracks... ('' @ str_nat (length tracks1) @ '' loaded)''))
                   None None jobs)))"
  by pat_completeness auto
termination
  by (relation "measure (\<lambda>(c, now, jid, sp, offset, tracks, jobs). length (sp_items sp) - offset)")
     auto

declare fetch_playlist_tracks.simps [simp del]

text \<open>\<open>[t.get("uri") for t in tracks if t.get("uri")]\<close>\<close>

definition original_order_of :: "track list \<Rightarrow> string list" where
  "original_order_of tracks = map (\<lambda>t. the (t_uri t)) (filter (\<lambda>t. truthy (t_uri t)) tracks)"

text \<open>
  The statement that runs the strategy the job asks for, with the two callbacks the job
  defines: progress is written to the job unless the event is set, and the preserve
  strategy asks the event before each move.
\<close>

definition execute_sort ::
  "task \<Rightarrow> (checkpoint \<Rightarrow> bool) \<Rightarrow> int \<Rightarrow> spotify \<Rightarrow> track list \<Rightarrow> job list \<Rightarrow>
   outcome \<times> spotify \<times> job list" where
  "execute_sort t cancel_event now sp tracks jobs =
     (let progress_callback = job_progress_callback cancel_event now (task_job_id t);
          should_cancel = (\<lambda>target_pos. cancel_event (AtMove target_pos))
      in if task_method t = ''fast'' then
           sort_playlist_fast sp tracks (task_sort_by t) (task_direction t)
             (Some progress_callback) jobs
         else
           sort_playlist_preserve_dates sp tracks (task_sort_by t) (task_direction t)
             (Some progress_callback) (Some should_cancel) jobs)"

text \<open>
  The body of the \<open>try\<close>. One clock reading \<open>now\<close> stands for all the readings of
  the run. \<open>estimated_seconds\<close> is the text of the time estimate, a floating-point
  value that only the status message shows. Writing the undo record is taken to succeed.
\<close>

definition run_sort_job_body ::
  "int \<Rightarrow> string \<Rightarrow> task \<Rightarrow> (checkpoint \<Rightarrow> bool) \<Rightarrow> bool \<Rightarrow> world \<Rightarrow> outcome \<times> world" where
  "run_sort_job_body now estimated_seconds t cancel_event client_ok w =
     (let jid = task_job_id t;
          jobs0 = update_job now jid (Some InProgress) None (Some ''Fetching playlist tracks...'')
                    None None (w_jobs w);
          w0 = w\<lparr>w_jobs := jobs0\<rparr>
      in if \<not> client_ok then
           (Raised (Exception ''Failed to get Spotify client - authentication may have expired''), w0)
         else
           (let snapshot_before = playlist_snapshot_id (w_sp w0) in
            case fetch_playlist_tracks cancel_event now jid (w_sp w0) 0 [] jobs0 of
              (None, jobs1) \<Rightarrow> (Returned, w0\<lparr>w_jobs := jobs1\<rparr>)
            | (Some tracks, jobs1) \<Rightarrow>
                (case get_sort_key_function (task_sort_by t) (task_direction t) of
                   Inl e \<Rightarrow> (Raised e, w0\<lparr>w_jobs := jobs1\<rparr>)
                 | Inr (key_func, reverse) \<Rightarrow>
                     (let sorted_tracks = sorted_py key_func reverse tracks;
                          tracks_to_move = calculate_moves_needed tracks sorted_tracks;
                          total_moves = (if task_method t = ''preserve'' then tracks_to_move
                                         else length tracks);
                          jobs2 = update_job now jid None None
                                    (Some (''Analyzing: '' @ str_nat tracks_to_move @
                                           '' tracks need repositioning (est. '' @
                                           estimated_seconds @ ''s)''))
                                    None (Some total_moves) jobs1;
                          original_order = original_order_of tracks
                      in case execute_sort t cancel_event now (w_sp w0) tracks jobs2 of
                           (Raised e, sp1, jobs3) \<Rightarrow> (Raised e, w0\<lparr>w_sp := sp1, w_jobs := jobs3\<rparr>)
                         | (Returned, sp1, jobs3) \<Rightarrow>
                             if cancel_event AtFinal then
                               (Returned,
                                w0\<lparr>w_sp := sp1,
                                   w_jobs := update_job now jid (Some Cancelled) None
                                               (Some ''Sort cancelled by user'') None None jobs3\<rparr>)
                             else
                               (let jobs4 =
                                      update_job now jid (Some Completed) (Some total_moves)
                                        (Some (if tracks_to_move = 0 then ''Playlist already sorted.''
                                               else ''Sort completed successfully! '' @
                                                    str_nat (length tracks) @ '' tracks sorted.''))
                                        None (Some total_moves) jobs3;
                                    snapshot_after = playlist_snapshot_id sp1;
                                    ops1 = snd (cleanup_expired now (w_operations w0));
                                    changes_made = (tracks_to_move > 0);
                                    ops2 = snd (record_operation now (task_playlist_id t)
                                             (task_user_id t) ''sort_reorder'' snapshot_before
                                             snapshot_after
                                             \<lparr>pl_removed_items = [],
                                              pl_original_order = original_order,
                                              pl_sort_by = Some (task_sort_by t),
                                              pl_direction = Some (task_direction t),
                                              pl_method = Some (task_method t),
                                              pl_source = meta_source (task_meta t),
                                              pl_schedule_id = meta_schedule_id (task_meta t),
                                              pl_tracks_moved = Some tracks_to_move\<rparr>
                                             DEFAULT_EXPIRY_DAYS changes_made ops1)
                                in (Returned,
                                    w0\<lparr>w_sp := sp1, w_jobs := jobs4, w_operations := ops2\<rparr>))))))"

text \<open>
  \<open>_run_sort_job\<close>: an exception of the body marks the job failed; the cancellation
  event is dropped in every case.
\<close>

definition run_sort_job ::
  "int \<Rightarrow> string \<Rightarrow> task \<Rightarrow> (checkpoint \<Rightarrow> bool) \<Rightarrow> bool \<Rightarrow> world \<Rightarrow> world" where
  "run_sort_job now estimated_seconds t cancel_event client_ok w =
     (case run_sort_job_body now estimated_seconds t cancel_event client_ok w of
        (out, w1) \<Rightarrow>
          (let w2 = (case out of
                       Returned \<Rightarrow> w1
                     | Raised e \<Rightarrow>
                         w1\<lparr>w_jobs := update_job now (task_job_id t) (Some Failed) None
                                          (Some (''Sort failed: '' @ str_exn e))
                                          (Some (str_exn e)) None (w_jobs w1)\<rparr>)
           in w2\<lparr>w_running_jobs := removeAll (task_job_id t) (w_running_jobs w2)\<rparr>))"

section \<open>Undo (routes/playlists.py, \<open>undo_last_operation\<close>)\<close>

record undo_response =
  ur_message :: string
  ur_snapshot_id :: "string option"
  ur_operation_id :: nat
  ur_op_type :: string

text \<open>
  \<open>for i in range(0, len(rest), 100): sp.playlist_add_items(playlist_id, rest[i:i+100])\<close>,
  from position \<open>i\<close> on.
\<close>

function add_batches :: "string list \<Rightarrow> nat \<Rightarrow> spotify \<Rightarrow> spotify" where
  "add_batches rest i sp =
     (if i < length rest
      then add_batches rest (i + 100) (playlist_add_items sp (take 100 (drop i rest)) None)
      else sp)"
  by pat_completeness auto
termination
  by (relation "measure (\<lambda>(rest, i, sp). length rest - i)") auto

declare add_batches.simps [simp del]

text \<open>The removed items that have a URI are put back one by one, in the order given.\<close>

fun reinsert_items :: "removed_item list \<Rightarrow> spotify \<Rightarrow> spotify" where
  "reinsert_items [] sp = sp"
| "reinsert_items (item # items) sp =
     (if truthy (ri_uri item)
      then reinsert_items items
             (playlist_add_items sp [the (ri_uri item)] (Some (ri_position item)))
      else reinsert_items items sp)"

text \<open>
  The handler runs for an authenticated user (\<open>require_auth\<close>). The remote calls are
  taken to succeed, so the handlers for their failures have no branch here.
\<close>

definition undo_last_operation ::
  "int \<Rightarrow> string \<Rightarrow> string \<Rightarrow> bool \<Rightarrow> world \<Rightarrow> (exn + undo_response) \<times> world" where
  "undo_last_operation now playlist_id user_id client_ok w =
     (if \<not> client_ok then (Inl (HTTPException 401 ''Spotify authentication expired''), w)
      else
        (let ops1 = snd (cleanup_expired now (w_operations w));
             w1 = w\<lparr>w_operations := ops1\<rparr>
         in case get_latest_operation now playlist_id user_id ops1 of
              None \<Rightarrow>
                (Inl (HTTPException 404 ''No undoable operations found for this playlist''), w1)
            | Some op \<Rightarrow>
                (let current_snapshot = playlist_snapshot_id (w_sp w1);
                     expected_snapshot = op_snapshot_after op
                 in if truthy expected_snapshot \<and> truthy current_snapshot
                       \<and> current_snapshot \<noteq> expected_snapshot then
                      (Inl (HTTPException 409
                         ''Playlist changed since this action; undo not available. Refresh and try again if you just updated.''),
                       w1)
                    else if op_type op = ''duplicates_remove'' then
                      (let removed_items = pl_removed_items (op_payload op) in
                       if removed_items = [] then
                         (Inl (HTTPException 400 ''No removal data stored for undo.''), w1)
                       else
                         (let sp1 = reinsert_items (sort_key ri_position removed_items) (w_sp w1)
                          in (Inr \<lparr>ur_message =
                                      ''Restored '' @ str_nat (length removed_items) @ '' tracks'',
                                    ur_snapshot_id = playlist_snapshot_id sp1,
                                    ur_operation_id = op_id op, ur_op_type = op_type op\<rparr>,
                              w1\<lparr>w_sp := sp1, w_operations := mark_undone (op_id op) ops1\<rparr>)))
                    else if op_type op = ''sort_reorder'' then
                      (let original_order = pl_original_order (op_payload op) in
                       if original_order = [] then
                         (Inl (HTTPException 400 ''No sort history stored for undo.''), w1)
                       else
                         (let first_batch = take 100 original_order;
                              rest = drop 100 original_order;
                              sp1 = playlist_replace_items (w_sp w1) first_batch;
                              sp2 = add_batches rest 0 sp1
                          in if first_batch = [] then
                               (Inl (HTTPException 500 ''Failed to restore previous order''), w1)
                             else
                             (Inr \<lparr>ur_message =
                                      ''Restored previous order ('' @
                                      str_nat (length original_order) @ '' tracks)'',
                                    ur_snapshot_id = playlist_snapshot_id sp2,
                                    ur_operation_id = op_id op, ur_op_type = op_type op\<rparr>,
                              w1\<lparr>w_sp := sp2, w_operations := mark_undone (op_id op) ops1\<rparr>)))
                    else
                      (Inl (HTTPException 400 (''Unsupported undo type: '' @ op_type op)), w1))))"

section \<open>Example data\<close>

definition example_job :: "string \<Rightarrow> string \<Rightarrow> string \<Rightarrow> job_status \<Rightarrow> int \<Rightarrow> job" where
  "example_job jid playlist_id user_id st started =
     \<lparr>job_id = jid, job_playlist_id = playlist_id, job_user_id = user_id,
      job_sort_by = ''title'', job_direction = ''asc'', job_method = ''preserve'',
      job_status = st, job_progress = 0, job_total = 3,
      job_started_at = started, job_updated_at = started, job_completed_at = None,
      job_message = Some ''Sort job created'', job_error = None,
      job_tracks_to_move = Some 0, job_estimated_time = Some 0\<rparr>"

definition example_world :: "job list \<Rightarrow> world" where
  "example_world jobs =
     \<lparr>w_jobs = jobs, w_operations = [], w_sp = example_sp, w_running_jobs = [],
      w_submitted = []\<rparr>"

definition example_session :: session_manager where
  "example_session = \<lparr>sm_authenticated = True, sm_user_id = ''u1'', sm_session_id = Some ''s1''\<rparr>"

definition example_request :: sort_request where
  "example_request = \<lparr>req_sort_by = ''title'', req_direction = ''asc'', req_method = ''preserve''\<rparr>"

definition example_params :: schedule_params where
  "example_params =
     \<lparr>sp_sort_by = Some ''title'', sp_direction = Some ''asc'', sp_method = Some ''preserve'',
      sp_schedule_type = Some ''daily'', sp_hour_of_day = Some 9, sp_day_of_week = Some ''mon'',
      sp_day_of_month = Some 1, sp_timezone_offset_minutes = Some 0\<rparr>"

definition two_active_jobs :: "job list" where
  "two_active_jobs = [example_job ''a'' ''p1'' ''u1'' InProgress 100,
                      example_job ''b'' ''p2'' ''u1'' Pending 200]"


definition example_op :: "string option \<Rightarrow> operation" where
  "example_op snapshot_after =
     \<lparr>op_id = 1, op_playlist_id = ''p1'', op_user_id = ''u1'', op_type = ''sort_reorder'',
      op_snapshot_before = Some ''before'', op_snapshot_after = snapshot_after,
      op_payload =
        \<lparr>pl_removed_items = [],
         pl_original_order = [''spotify:track:2'', ''spotify:track:1'', ''spotify:track:3''],
         pl_sort_by = Some ''title'', pl_direction = Some ''asc'', pl_method = Some ''preserve'',
         pl_source = None, pl_schedule_id = None, pl_tracks_moved = Some 2\<rparr>,
      op_created_at = 100, op_expires_at = 100 + 7 * us_day, op_undone = False,
      op_changes_made = True\<rparr>"

definition example_undo_world :: "string option \<Rightarrow> world" where
  "example_undo_world snapshot_after =
     \<lparr>w_jobs = [], w_operations = [example_op snapshot_after], w_sp = example_sp,
      w_running_jobs = [], w_submitted = []\<rparr>"

definition example_task :: "string \<Rightarrow> string \<Rightarrow> task" where
  "example_task sort_by method =
     \<lparr>task_job_id = ''a'', task_playlist_id = ''p1'', task_user_id = ''u1'',
      task_sort_by = sort_by, task_direction = ''asc'', task_method = method,
      task_session_id = Some ''s1'',
      task_meta = \<lparr>meta_source = None, meta_schedule_id = None\<rparr>\<rparr>"

section \<open>Properties\<close>

lemma index_of_Some:
  "x \<in> set xs \<Longrightarrow> \<exists>i. index_of xs x = Some i \<and> i < length xs \<and> xs ! i = x \<and> (\<forall>j<i. xs ! j \<noteq> x)"
proof (induction xs)
  case Nil
  then show ?case by simp
next
  case (Cons y ys)
  show ?case
  proof (cases "y = x")
    case True
    then show ?thesis by simp
  next
    case False
    with Cons.prems have "x \<in> set ys" by simp
    from Cons.IH [OF this] obtain i where
      i: "index_of ys x = Some i" "i < length ys" "ys ! i = x" "\<forall>j<i. ys ! j \<noteq> x"
      by blast
    have "\<forall>j<Suc i. (y # ys) ! j \<noteq> x"
      using False i(4) by (auto simp: nth_Cons split: nat.splits)
    with False i show ?thesis by simp
  qed
qed

lemma map_reorder_list:
  "map f (reorder_list xs a b n) = reorder_list (map f xs) a b n"
  by (simp add: reorder_list_def Let_def take_map drop_map)

lemma reorder_list_single:
  assumes "c < length xs" and that: "k < c"
  shows "reorder_list xs c k 1 = list_insert (take c xs @ drop (Suc c) xs) k (xs ! c)"
proof -
  have "take 1 (drop c xs) = [xs ! c]"
    using assms by (simp add: take_Suc_conv_app_nth Cons_nth_drop_Suc [symmetric])
  then show ?thesis
    using that by (simp add: reorder_list_def list_insert_def Let_def)
qed

lemma set_pop_insert:
  assumes "c < length P"
  shows "set (list_insert (take c P @ drop (Suc c) P) k (P ! c)) = set P"
proof -
  let ?Q = "take c P @ drop (Suc c) P"
  have "set (list_insert ?Q k (P ! c)) = set (take k ?Q @ drop k ?Q) \<union> {P ! c}"
    by (simp add: list_insert_def)
  also have "\<dots> = set ?Q \<union> {P ! c}" by (simp only: append_take_drop_id)
  also have "\<dots> = set (take c P @ P ! c # drop (Suc c) P)" by simp
  also have "\<dots> = set P" using assms by (simp only: id_take_nth_drop [symmetric])
  finally show ?thesis .
qed

lemma length_pop_insert:
  assumes "c < length P"
  shows "length (list_insert (take c P @ drop (Suc c) P) k (P ! c)) = length P"
  using assms by (simp add: list_insert_def)

lemma take_pop_insert:
  assumes "c < length P" "k < c"
  shows "take (Suc k) (list_insert (take c P @ drop (Suc c) P) k (P ! c)) = take k P @ [P ! c]"
  using assms by (simp add: list_insert_def min_def)

lemma preserve_loop_sorts:
  fixes si :: "(nat \<times> track \<times> sort_key) list"
  assumes dT: "distinct (map fst si)"
    and cb: "progress_callback = None \<or> (\<forall>x \<in> set si. t_name (fst (snd x)) \<noteq> None)"
    and sc: "\<forall>c. should_cancel = Some c \<longrightarrow> (\<forall>i. \<not> c i)"
  shows "n = length si - k \<Longrightarrow> k \<le> length si \<Longrightarrow> set P = set (map fst si) \<Longrightarrow>
     length P = length si \<Longrightarrow> take k P = take k (map fst si) \<Longrightarrow> sp_items sp = map g P \<Longrightarrow>
     \<exists>sp' s' moves.
        preserve_loop progress_callback should_cancel mn (enumerate k (drop k si)) P mm sp s
          = (Returned, sp', s')
        \<and> sp_items sp' = map g (map fst si)
        \<and> sp_calls sp' = sp_calls sp @ moves \<and> single_moves moves
        \<and> sp_catalog sp' = sp_catalog sp \<and> sp_snapshot_id sp' = sp_snapshot_id sp"
proof (induction n arbitrary: k P mm sp s)
  case 0
  then have k: "k = length si" by simp
  with 0 have "P = map fst si" by simp
  with 0 k show ?case by (simp add: single_moves_def)
next
  case (Suc n)
  let ?T = "map fst si"
  from Suc.prems have k: "k < length si" by simp
  obtain orig t ky where x: "si ! k = (orig, t, ky)" by (cases "si ! k") auto
  have dr: "drop k si = (orig, t, ky) # drop (Suc k) si"
    using k x by (simp add: Cons_nth_drop_Suc [symmetric])
  have en: "enumerate k (drop k si) = (k, orig, t, ky) # enumerate (Suc k) (drop (Suc k) si)"
    by (simp add: dr)
  have Tk: "?T ! k = orig" using k x by simp
  have nocancel: "\<not> (case should_cancel of None \<Rightarrow> False | Some c \<Rightarrow> c k)"
    using sc by (cases should_cancel) auto
  have "orig \<in> set ?T" using k Tk by (metis length_map nth_mem)
  then have "orig \<in> set P" using Suc.prems by simp
  from index_of_Some [OF this] obtain c where
    c: "index_of P orig = Some c" "c < length P" "P ! c = orig" "\<forall>j<c. P ! j \<noteq> orig"
    by blast
  have ck: "k \<le> c"
  proof (rule ccontr)
    assume "\<not> k \<le> c"
    then have lt: "c < k" by simp
    have "P ! c = take k P ! c" using lt by simp
    also have "\<dots> = take k ?T ! c" using Suc.prems by simp
    also have "\<dots> = ?T ! c" using lt by simp
    finally have "?T ! c = ?T ! k" using c(3) Tk by simp
    moreover have "c < length ?T" "k < length ?T" using lt k by simp_all
    ultimately have "c = k" using dT nth_eq_iff_index_eq by blast
    with lt show False by simp
  qed
  have n': "n = length si - Suc k" "Suc k \<le> length si" using Suc.prems k by simp_all
  show ?case
  proof (cases "c = k")
    case True
    have "take (Suc k) P = take k P @ [P ! k]"
      using Suc.prems k by (simp add: take_Suc_conv_app_nth)
    also have "\<dots> = take k ?T @ [?T ! k]" using Suc.prems True c(3) Tk by simp
    also have "\<dots> = take (Suc k) ?T" using k by (simp add: take_Suc_conv_app_nth)
    finally have tk: "take (Suc k) P = take (Suc k) ?T" .
    have "\<exists>sp' s' moves.
        preserve_loop progress_callback should_cancel mn (enumerate (Suc k) (drop (Suc k) si)) P mm sp s
          = (Returned, sp', s')
        \<and> sp_items sp' = map g ?T
        \<and> sp_calls sp' = sp_calls sp @ moves \<and> single_moves moves
        \<and> sp_catalog sp' = sp_catalog sp \<and> sp_snapshot_id sp' = sp_snapshot_id sp"
      by (rule Suc.IH [OF n' _ _ tk]) (use Suc.prems in simp_all)
    then show ?thesis
      using en nocancel c(1) True by simp
  next
    case False
    with ck have kc: "k < c" by simp
    let ?P1 = "list_insert (take c P @ drop (Suc c) P) k (P ! c)"
    let ?sp1 = "playlist_reorder_items sp c k 1"
    have setP1: "set ?P1 = set ?T" using set_pop_insert [OF c(2)] Suc.prems by simp
    have lenP1: "length ?P1 = length si" using length_pop_insert [OF c(2)] Suc.prems by simp
    have "take (Suc k) ?P1 = take k P @ [P ! c]" using take_pop_insert [OF c(2) kc] .
    also have "\<dots> = take k ?T @ [?T ! k]" using Suc.prems c(3) Tk by simp
    also have "\<dots> = take (Suc k) ?T" using k by (simp add: take_Suc_conv_app_nth)
    finally have tk: "take (Suc k) ?P1 = take (Suc k) ?T" .
    have "sp_items ?sp1 = reorder_list (map g P) c k 1"
      using Suc.prems by (simp add: playlist_reorder_items_def)
    also have "\<dots> = map g (reorder_list P c k 1)" by (simp add: map_reorder_list)
    also have "\<dots> = map g ?P1" using reorder_list_single [OF c(2) kc] by simp
    finally have items1: "sp_items ?sp1 = map g ?P1" .
    have rest1: "sp_calls ?sp1 = sp_calls sp @ [ReorderItems c k 1]"
      "sp_catalog ?sp1 = sp_catalog sp" "sp_snapshot_id ?sp1 = sp_snapshot_id sp"
      by (simp_all add: playlist_reorder_items_def)
    have IH: "\<exists>sp' s' moves.
        preserve_loop progress_callback should_cancel mn (enumerate (Suc k) (drop (Suc k) si))
          ?P1 (mm + 1) ?sp1 s0 = (Returned, sp', s')
        \<and> sp_items sp' = map g ?T
        \<and> sp_calls sp' = sp_calls sp @ moves \<and> single_moves moves
        \<and> sp_catalog sp' = sp_catalog sp \<and> sp_snapshot_id sp' = sp_snapshot_id sp" for s0
    proof -
      have "\<exists>sp' s' moves.
        preserve_loop progress_callback should_cancel mn (enumerate (Suc k) (drop (Suc k) si))
          ?P1 (mm + 1) ?sp1 s0 = (Returned, sp', s')
        \<and> sp_items sp' = map g ?T
        \<and> sp_calls sp' = sp_calls ?sp1 @ moves \<and> single_moves moves
        \<and> sp_catalog sp' = sp_catalog ?sp1 \<and> sp_snapshot_id sp' = sp_snapshot_id ?sp1"
        by (rule Suc.IH [OF n' setP1 lenP1 tk items1])
      then obtain sp' s' moves where r:
        "preserve_loop progress_callback should_cancel mn (enumerate (Suc k) (drop (Suc k) si))
          ?P1 (mm + 1) ?sp1 s0 = (Returned, sp', s')"
        "sp_items sp' = map g ?T" "sp_calls sp' = sp_calls ?sp1 @ moves" "single_moves moves"
        "sp_catalog sp' = sp_catalog ?sp1" "sp_snapshot_id sp' = sp_snapshot_id ?sp1"
        by blast
      have "sp_calls sp' = sp_calls sp @ (ReorderItems c k 1 # moves)"
        using r(3) rest1(1) by simp
      moreover have "single_moves (ReorderItems c k 1 # moves)"
        using r(4) by (simp add: single_moves_def)
      ultimately show ?thesis using r rest1 by metis
    qed
    show ?thesis
    proof (cases progress_callback)
      case None
      then show ?thesis
        using en nocancel c(1) False kc IH [of s] by (simp add: list_pop_def)
    next
      case (Some f)
      have "(orig, t, ky) \<in> set si" using k x by (metis nth_mem)
      with cb Some obtain nm where nm: "t_name t = Some nm" by fastforce
      show ?thesis
        using en nocancel c(1) False kc Some nm
          IH [of "f (mm + 1) (''Moved track '' @ str_nat (mm + 1) @ ''/'' @ str_nat mn @ '': '' @ take 40 nm) s"]
        by (simp add: list_pop_def)
    qed
  qed
qed

lemma insort_key_map:
  "f x = g (h x) \<Longrightarrow> \<forall>y \<in> set ys. f y = g (h y) \<Longrightarrow>
   map h (insort_key f x ys) = insort_key g (h x) (map h ys)"
  by (induction ys) simp_all

lemma sort_key_map:
  "\<forall>x \<in> set xs. f x = g (h x) \<Longrightarrow> map h (sort_key f xs) = sort_key g (map h xs)"
  by (induction xs) (simp_all add: insort_key_map)

lemma sorted_py_map:
  "\<forall>x \<in> set xs. f x = g (h x) \<Longrightarrow> map h (sorted_py f r xs) = sorted_py g r (map h xs)"
proof -
  assume a: "\<forall>x \<in> set xs. f x = g (h x)"
  then have b: "\<forall>x \<in> set (rev xs). f x = g (h x)" by simp
  have c: "map h (sort_key f (rev xs)) = sort_key g (map h (rev xs))"
    using b by (rule sort_key_map)
  have "map h (rev (sort_key f (rev xs))) = rev (map h (sort_key f (rev xs)))"
    by (simp add: rev_map)
  also have "\<dots> = rev (sort_key g (map h (rev xs)))"
    by (simp only: c)
  also have "\<dots> = rev (sort_key g (rev (map h xs)))"
    by (simp add: rev_map)
  finally show ?thesis
    using a by (simp add: sorted_py_def sort_key_map)
qed

lemma set_sorted_py: "set (sorted_py f r xs) = set xs"
  by (simp add: sorted_py_def)

lemma length_sorted_py: "length (sorted_py f r xs) = length xs"
  by (simp add: sorted_py_def)

lemma distinct_sorted_py: "distinct (sorted_py f r xs) = distinct xs"
  by (simp add: sorted_py_def)

lemma sorted_py_id_iff_sorted:
  "sorted_py f r xs = xs \<longleftrightarrow> sorted (map f (if r then rev xs else xs))"
proof (cases r)
  case True
  have "rev (sort_key f (rev xs)) = xs \<longleftrightarrow> sort_key f (rev xs) = rev xs"
    by (metis rev_rev_ident)
  also have "\<dots> \<longleftrightarrow> sorted (map f (rev xs))"
    by (metis sorted_sort_key sort_key_id_if_sorted)
  finally show ?thesis using True by (simp add: sorted_py_def)
next
  case False
  have "sort_key f xs = xs \<longleftrightarrow> sorted (map f xs)"
    by (metis sorted_sort_key sort_key_id_if_sorted)
  then show ?thesis using False by (simp add: sorted_py_def)
qed

lemma indexed_tracks_nth:
  "i < length tracks \<Longrightarrow> indexed_tracks key_func tracks ! i = (i, tracks ! i, key_func (tracks ! i))"
  by (simp add: indexed_tracks_def nth_enumerate_eq)

lemma length_indexed_tracks: "length (indexed_tracks key_func tracks) = length tracks"
  by (simp add: indexed_tracks_def)

lemma indexed_tracks_set:
  "x \<in> set (indexed_tracks key_func tracks) \<Longrightarrow>
   fst x < length tracks \<and> fst (snd x) = tracks ! fst x \<and> snd (snd x) = key_func (fst (snd x))"
  by (auto simp: indexed_tracks_def in_set_enumerate_eq)

lemma map_fst_indexed_tracks: "map fst (indexed_tracks key_func tracks) = [0..<length tracks]"
  by (rule nth_equalityI) (simp_all add: length_indexed_tracks indexed_tracks_nth)

lemma map_track_indexed_tracks: "map (\<lambda>x. fst (snd x)) (indexed_tracks key_func tracks) = tracks"
  by (rule nth_equalityI) (simp_all add: length_indexed_tracks indexed_tracks_nth)

lemma map_key_indexed_tracks:
  "map (\<lambda>x. snd (snd x)) (indexed_tracks key_func tracks) = map key_func tracks"
  by (rule nth_equalityI) (simp_all add: length_indexed_tracks indexed_tracks_nth)

lemma sorted_indexed_tracks:
  "map (\<lambda>x. fst (snd x)) (sorted_py (\<lambda>x. snd (snd x)) r (indexed_tracks key_func tracks))
     = sorted_py key_func r tracks"
proof -
  have "\<forall>x \<in> set (indexed_tracks key_func tracks). snd (snd x) = key_func (fst (snd x))"
    using indexed_tracks_set by blast
  then have "map (\<lambda>x. fst (snd x)) (sorted_py (\<lambda>x. snd (snd x)) r (indexed_tracks key_func tracks))
      = sorted_py key_func r (map (\<lambda>x. fst (snd x)) (indexed_tracks key_func tracks))"
    by (rule sorted_py_map)
  then show ?thesis by (simp add: map_track_indexed_tracks)
qed

lemma distinct_sorted_indexed:
  "distinct (map fst (sorted_py f r (indexed_tracks key_func tracks)))"
proof -
  let ?ix = "indexed_tracks key_func tracks"
  have d: "distinct (map fst ?ix)" by (simp add: map_fst_indexed_tracks)
  then have "distinct ?ix" "inj_on fst (set ?ix)" by (simp_all add: distinct_map)
  then show ?thesis by (simp add: distinct_map distinct_sorted_py set_sorted_py)
qed

lemma sorted_indexed_id:
  assumes "sorted_py key_func r tracks = tracks"
  shows "sorted_py (\<lambda>x. snd (snd x)) r (indexed_tracks key_func tracks) = indexed_tracks key_func tracks"
proof -
  have "sorted (map key_func (if r then rev tracks else tracks))"
    using assms by (simp add: sorted_py_id_iff_sorted)
  then have "sorted (map (\<lambda>x. snd (snd x))
      (if r then rev (indexed_tracks key_func tracks) else indexed_tracks key_func tracks))"
    by (cases r) (simp_all add: rev_map [symmetric] map_key_indexed_tracks)
  then show ?thesis by (simp only: sorted_py_id_iff_sorted)
qed

lemma moves_needed_zero_iff:
  "length (filter (\<lambda>(i, orig_idx, _, _). orig_idx \<noteq> i) (enumerate 0 si)) = 0
     \<longleftrightarrow> map fst si = [0..<length si]"
proof
  assume "length (filter (\<lambda>(i, orig_idx, _, _). orig_idx \<noteq> i) (enumerate 0 si)) = 0"
  then have a: "\<forall>p \<in> set (enumerate 0 si). \<not> (\<lambda>(i, orig_idx, _, _). orig_idx \<noteq> i) p"
    by (simp add: filter_empty_conv)
  show "map fst si = [0..<length si]"
  proof (rule nth_equalityI)
    show "length (map fst si) = length [0..<length si]" by simp
  next
    fix i assume "i < length (map fst si)"
    then have i: "i < length si" by simp
    then have "(i, si ! i) \<in> set (enumerate 0 si)" by (simp add: in_set_enumerate_eq)
    with a have "fst (si ! i) = i" by (cases "si ! i") auto
    with i show "map fst si ! i = [0..<length si] ! i" by simp
  qed
next
  assume m: "map fst si = [0..<length si]"
  have "\<forall>p \<in> set (enumerate 0 si). \<not> (\<lambda>(i, orig_idx, _, _). orig_idx \<noteq> i) p"
  proof
    fix p assume "p \<in> set (enumerate 0 si)"
    then have p: "fst p < length si" "si ! fst p = snd p" by (simp_all add: in_set_enumerate_eq)
    have "fst (si ! fst p) = map fst si ! fst p" using p(1) by simp
    also have "\<dots> = fst p" using m p(1) by simp
    finally show "\<not> (\<lambda>(i, orig_idx, _, _). orig_idx \<noteq> i) p"
      using p(2) by (cases p) auto
  qed
  then show "length (filter (\<lambda>(i, orig_idx, _, _). orig_idx \<noteq> i) (enumerate 0 si)) = 0"
    by (simp add: filter_empty_conv)
qed

lemma item_tracks_all:
  "\<forall>e \<in> set items. e_track e \<noteq> None \<Longrightarrow>
   item_tracks items = map (\<lambda>e. the (item_track e)) items"
  by (induction items) (auto simp: item_tracks_def List.map_filter_simps item_track_def)

lemma preserve_general:
  assumes g: "get_sort_key_function sort_by direction = Inr (key_func, reverse)"
    and cb: "progress_callback = None \<or> (\<forall>t \<in> set tracks. t_name t \<noteq> None)"
    and sc: "\<forall>c. should_cancel = Some c \<longrightarrow> (\<forall>i. \<not> c i)"
    and len: "length (sp_items sp) = length tracks"
  shows "\<exists>sp' s' moves.
      sort_playlist_preserve_dates sp tracks sort_by direction progress_callback should_cancel s
        = (Returned, sp', s')
      \<and> sp_items sp' = map (\<lambda>i. sp_items sp ! i)
           (map fst (sorted_py (\<lambda>x. snd (snd x)) reverse (indexed_tracks key_func tracks)))
      \<and> sp_calls sp' = sp_calls sp @ moves \<and> single_moves moves
      \<and> sp_catalog sp' = sp_catalog sp \<and> sp_snapshot_id sp' = sp_snapshot_id sp"
proof -
  let ?si = "sorted_py (\<lambda>x. snd (snd x)) reverse (indexed_tracks key_func tracks)"
  let ?mn = "length (filter (\<lambda>(i, orig_idx, _, _). orig_idx \<noteq> i) (enumerate 0 ?si))"
  have lsi: "length ?si = length tracks" by (simp add: length_sorted_py length_indexed_tracks)
  have unfold: "sort_playlist_preserve_dates sp tracks sort_by direction progress_callback should_cancel s
      = (if ?mn = 0 then
           (Returned, sp,
            (case progress_callback of None \<Rightarrow> s
             | Some cb \<Rightarrow> cb (length tracks) ''Playlist already sorted'' s))
         else preserve_loop progress_callback should_cancel ?mn (enumerate 0 ?si)
                [0..<length tracks] 0 sp s)"
    by (simp add: sort_playlist_preserve_dates_def g Let_def)
  show ?thesis
  proof (cases "?mn = 0")
    case True
    then have "map fst ?si = [0..<length tracks]"
      by (simp only: moves_needed_zero_iff lsi)
    then have "map (\<lambda>i. sp_items sp ! i) (map fst ?si) = sp_items sp"
      using len map_nth [of "sp_items sp"] by simp
    then show ?thesis
      using True unfold by (simp add: single_moves_def)
  next
    case False
    have cb': "progress_callback = None \<or> (\<forall>x \<in> set ?si. t_name (fst (snd x)) \<noteq> None)"
    proof (cases "progress_callback = None")
      case True
      then show ?thesis by simp
    next
      case False
      with cb have nm: "\<forall>t \<in> set tracks. t_name t \<noteq> None" by simp
      have "\<forall>x \<in> set ?si. t_name (fst (snd x)) \<noteq> None"
      proof
        fix x assume "x \<in> set ?si"
        then have "x \<in> set (indexed_tracks key_func tracks)" by (simp add: set_sorted_py)
        then have "fst x < length tracks" "fst (snd x) = tracks ! fst x"
          using indexed_tracks_set by blast+
        then show "t_name (fst (snd x)) \<noteq> None" using nm by simp
      qed
      then show ?thesis by simp
    qed
    have set0: "set [0..<length tracks] = set (map fst ?si)"
    proof -
      have "set (map fst ?si) = fst ` set (indexed_tracks key_func tracks)"
        by (simp add: set_sorted_py)
      also have "\<dots> = set (map fst (indexed_tracks key_func tracks))" by simp
      also have "\<dots> = set [0..<length tracks]" by (simp only: map_fst_indexed_tracks)
      finally show ?thesis by simp
    qed
    have items0: "sp_items sp = map (\<lambda>i. sp_items sp ! i) [0..<length tracks]"
      using len map_nth [of "sp_items sp"] by simp
    have "\<exists>sp' s' moves.
        preserve_loop progress_callback should_cancel ?mn (enumerate 0 (drop 0 ?si))
          [0..<length tracks] 0 sp s = (Returned, sp', s')
        \<and> sp_items sp' = map (\<lambda>i. sp_items sp ! i) (map fst ?si)
        \<and> sp_calls sp' = sp_calls sp @ moves \<and> single_moves moves
        \<and> sp_catalog sp' = sp_catalog sp \<and> sp_snapshot_id sp' = sp_snapshot_id sp"
    proof (rule preserve_loop_sorts [where n = "length ?si"])
      show "distinct (map fst ?si)" by (rule distinct_sorted_indexed)
      show "progress_callback = None \<or> (\<forall>x \<in> set ?si. t_name (fst (snd x)) \<noteq> None)"
        by (rule cb')
      show "\<forall>c. should_cancel = Some c \<longrightarrow> (\<forall>i. \<not> c i)" by (rule sc)
      show "set [0..<length tracks] = set (map fst ?si)" by (rule set0)
      show "sp_items sp = map (\<lambda>i. sp_items sp ! i) [0..<length tracks]" by (rule items0)
    qed (simp_all add: lsi)
    then show ?thesis using False unfold by simp
  qed
qed

lemma supported_field:
  "sort_by \<in> set sort_fields \<Longrightarrow> \<exists>key_func. get_sort_key_function sort_by direction = Inr (key_func, direction = ''desc'')"
  by (auto simp: sort_fields_def get_sort_key_function_def)

lemma preserve_sorts_remote:
  assumes g: "get_sort_key_function sort_by direction = Inr (key_func, reverse)"
    and all_tracks: "\<forall>item \<in> set (sp_items sp). e_track item \<noteq> None"
    and same: "item_tracks (sp_items sp) = tracks"
    and cb: "progress_callback = None \<or> (\<forall>t \<in> set tracks. t_name t \<noteq> None)"
    and sc: "\<forall>c. should_cancel = Some c \<longrightarrow> (\<forall>i. \<not> c i)"
  shows "\<exists>sp' s' moves.
      sort_playlist_preserve_dates sp tracks sort_by direction progress_callback should_cancel s
        = (Returned, sp', s')
      \<and> item_tracks (sp_items sp') = sorted_py key_func reverse tracks
      \<and> sp_calls sp' = sp_calls sp @ moves \<and> single_moves moves
      \<and> sp_catalog sp' = sp_catalog sp \<and> sp_snapshot_id sp' = sp_snapshot_id sp"
proof -
  let ?r = "reverse"
  let ?si = "sorted_py (\<lambda>x. snd (snd x)) ?r (indexed_tracks key_func tracks)"
  let ?tr = "\<lambda>e. the (item_track e)"
  have tracks: "tracks = map ?tr (sp_items sp)"
    using item_tracks_all [OF all_tracks] same by simp
  then have len: "length (sp_items sp) = length tracks" by simp
  from preserve_general [OF g cb sc len, of s] obtain sp' s' moves where
    r: "sort_playlist_preserve_dates sp tracks sort_by direction progress_callback should_cancel s
          = (Returned, sp', s')"
      "sp_items sp' = map (\<lambda>i. sp_items sp ! i) (map fst ?si)"
      "sp_calls sp' = sp_calls sp @ moves" "single_moves moves"
      "sp_catalog sp' = sp_catalog sp" "sp_snapshot_id sp' = sp_snapshot_id sp"
    by blast
  have inb: "\<forall>x \<in> set ?si. fst x < length tracks \<and> fst (snd x) = tracks ! fst x"
    using indexed_tracks_set by (auto simp: set_sorted_py)
  have "\<forall>e \<in> set (sp_items sp'). e_track e \<noteq> None"
  proof
    fix e assume "e \<in> set (sp_items sp')"
    then obtain x where x: "x \<in> set ?si" "e = sp_items sp ! fst x"
      unfolding r(2) by auto
    from x(1) inb have "fst x < length (sp_items sp)" unfolding len by blast
    then have "e \<in> set (sp_items sp)" unfolding x(2) by (rule nth_mem)
    with all_tracks show "e_track e \<noteq> None" by blast
  qed
  then have "item_tracks (sp_items sp') = map ?tr (sp_items sp')"
    by (rule item_tracks_all)
  also have "\<dots> = map (\<lambda>x. ?tr (sp_items sp ! fst x)) ?si"
    unfolding r(2) by (simp add: comp_def)
  also have "\<dots> = map (\<lambda>x. fst (snd x)) ?si"
  proof (rule map_cong [OF refl])
    fix x assume "x \<in> set ?si"
    with inb have a: "fst x < length tracks" and b: "fst (snd x) = tracks ! fst x" by blast+
    from a have "fst x < length (sp_items sp)" unfolding len .
    then have "map ?tr (sp_items sp) ! fst x = ?tr (sp_items sp ! fst x)" by (rule nth_map)
    then show "?tr (sp_items sp ! fst x) = fst (snd x)"
      unfolding b by (simp only: tracks [symmetric])
  qed
  also have "\<dots> = sorted_py key_func ?r tracks" by (rule sorted_indexed_tracks)
  finally have "item_tracks (sp_items sp') = sorted_py key_func reverse tracks" .
  with r show ?thesis by blast
qed

text \<open>
  Claim C1. Let the remote playlist hold exactly the tracks handed to the preserve strategy,
  in the same order, and let the sort field be one of the six supported ones; the
  direction is any string. When the run is not cancelled (and, if progress is reported,
  every track has a name to report), \<open>sort_playlist_preserve_dates\<close> returns, every call
  it has sent is a reorder of a range of length one, and the remote order is then exactly
  \<open>sorted(tracks, key, reverse)\<close>, the stable sort on the sort key.
\<close>

theorem preserve_moves_reach_target_order:
  assumes field: "sort_by \<in> set sort_fields"
    and all_tracks: "\<forall>item \<in> set (sp_items sp). e_track item \<noteq> None"
    and same: "item_tracks (sp_items sp) = tracks"
    and cb: "progress_callback = None \<or> (\<forall>t \<in> set tracks. t_name t \<noteq> None)"
    and sc: "\<forall>c. should_cancel = Some c \<longrightarrow> (\<forall>i. \<not> c i)"
  shows "\<exists>sp' s' moves.
      sort_playlist_preserve_dates sp tracks sort_by direction progress_callback should_cancel s
        = (Returned, sp', s')
      \<and> sorted_tracks sort_by direction tracks = Inr (item_tracks (sp_items sp'))
      \<and> sp_calls sp' = sp_calls sp @ moves \<and> single_moves moves"
proof -
  from supported_field [OF field] obtain key_func where
    g: "get_sort_key_function sort_by direction = Inr (key_func, direction = ''desc'')"
    by blast
  from preserve_sorts_remote [OF g all_tracks same cb sc, of s] obtain sp' s' moves where
    "sort_playlist_preserve_dates sp tracks sort_by direction progress_callback should_cancel s
          = (Returned, sp', s')"
    "item_tracks (sp_items sp') = sorted_py key_func (direction = ''desc'') tracks"
    "sp_calls sp' = sp_calls sp @ moves" "single_moves moves"
    by blast
  then show ?thesis by (auto simp: sorted_tracks_def g)
qed

text \<open>The theorem at a playlist of three tracks, sorted by title.\<close>

theorem preserve_moves_reach_target_order_witness:
  "\<exists>sp' s' moves.
      sort_playlist_preserve_dates example_sp (item_tracks (sp_items example_sp))
        ''title'' ''asc'' None None () = (Returned, sp', s')
      \<and> sorted_tracks ''title'' ''asc'' (item_tracks (sp_items example_sp))
           = Inr (item_tracks (sp_items sp'))
      \<and> sp_calls sp' = sp_calls example_sp @ moves \<and> single_moves moves"
  using preserve_moves_reach_target_order [of "''title''" example_sp
      "item_tracks (sp_items example_sp)" None None "''asc''" "()"]
  by (simp add: sort_fields_def example_sp_def)

subsection \<open>Job store, admission and startup\<close>

text \<open>
  Claim C8. The startup sweep keeps the rows of the job table and their ids. After it no
  job is pending or in progress: every job that was is failed, with the error text of the
  restart interruption, and its \<open>updated_at\<close> and \<open>completed_at\<close> are set to the two clock
  readings of the sweep; every other job is as it was.
\<close>

theorem startup_sweep_fails_interrupted_jobs:
  "(let jobs = w_jobs w; jobs' = w_jobs (lifespan_startup now1 now2 w) in
      length jobs' = length jobs
     \<and> (\<forall>j \<in> set jobs'. job_status j \<noteq> Pending \<and> job_status j \<noteq> InProgress)
     \<and> (\<forall>i < length jobs.
           (job_status (jobs ! i) = Pending \<or> job_status (jobs ! i) = InProgress) \<longrightarrow>
             job_id (jobs' ! i) = job_id (jobs ! i)
           \<and> job_status (jobs' ! i) = Failed
           \<and> job_error (jobs' ! i) = Some ''Service restarted while job was running''
           \<and> job_message (jobs' ! i) = Some ''Job interrupted by service restart''
           \<and> job_updated_at (jobs' ! i) = now1
           \<and> job_completed_at (jobs' ! i) = Some now2)
     \<and> (\<forall>i < length jobs.
           \<not> (job_status (jobs ! i) = Pending \<or> job_status (jobs ! i) = InProgress) \<longrightarrow>
             jobs' ! i = jobs ! i))"
  by (auto simp: Let_def lifespan_startup_def recover_interrupted_jobs_def active_status_def)

text \<open>The sweep on a table with a running, a completed and a pending job.\<close>

theorem startup_sweep_fails_interrupted_jobs_witness:
  "map (\<lambda>j. (job_id j, job_status j, job_error j, job_completed_at j))
     (w_jobs (lifespan_startup 500 501
        (example_world [example_job ''a'' ''p1'' ''u1'' InProgress 100,
                        example_job ''b'' ''p2'' ''u1'' Completed 200,
                        example_job ''c'' ''p3'' ''u2'' Pending 300])))
   = [(''a'', Failed, Some ''Service restarted while job was running'', Some 501),
      (''b'', Completed, None, None),
      (''c'', Failed, Some ''Service restarted while job was running'', Some 501)]"
  using startup_sweep_fails_interrupted_jobs [of
      "example_world [example_job ''a'' ''p1'' ''u1'' InProgress 100,
                        example_job ''b'' ''p2'' ''u1'' Completed 200,
                        example_job ''c'' ''p3'' ''u2'' Pending 300]" 500 501]
  by (simp add: example_world_def example_job_def lifespan_startup_def
      recover_interrupted_jobs_def active_status_def)






text \<open>
  Claim C7 at a failing input. The user has two active jobs, so \<open>start_sort\<close> rejects a
  submission for the playlist \<open>p3\<close>; the scheduler's dispatch for the same playlist and
  user creates the job, the user's third, and hands the task on with its provenance.
\<close>

theorem scheduled_sort_skips_user_limit:
  "get_user_active_job_count ''u1'' (w_jobs (example_world two_active_jobs)) = 2
   \<and> isl (fst (start_sort 300 ''c'' ''p3'' example_request example_session True
                  (example_world two_active_jobs)))
   \<and> fst (run_sort_schedule 300 ''c'' ''p3'' ''u1'' (Some ''s1'') example_params 7 True
             (example_world two_active_jobs)) = Returned
   \<and> get_user_active_job_count ''u1''
        (w_jobs (snd (run_sort_schedule 300 ''c'' ''p3'' ''u1'' (Some ''s1'') example_params 7 True
                        (example_world two_active_jobs)))) = 3
   \<and> map task_meta
        (w_submitted (snd (run_sort_schedule 300 ''c'' ''p3'' ''u1'' (Some ''s1'') example_params 7
                             True (example_world two_active_jobs))))
      = [\<lparr>meta_source = Some ''scheduled'', meta_schedule_id = Some 7\<rparr>]"
  by (simp add: start_sort_def start_sort_body_def MAX_CONCURRENT_JOBS_def Let_def
      run_sort_schedule_def get_active_job_for_playlist_def create_job_def start_sort_job_def
      example_session_def example_world_def two_active_jobs_def example_params_def get_or_def
      get_user_active_job_count_def example_job_def active_status_def
      active_jobs_of_playlist_def stale_def example_sp_def)

subsection \<open>Undo and the version token\<close>

lemma add_batches_done: "length rest \<le> i \<Longrightarrow> add_batches rest i sp = sp"
  by (simp add: add_batches.simps)

lemma latest_by_in_set: "latest_by f xs = Some x \<Longrightarrow> x \<in> set xs"
  by (induction xs arbitrary: x) (auto split: option.splits if_splits)

lemma get_latest_operation_undoable:
  "get_latest_operation now playlist_id user_id ops = Some op \<Longrightarrow>
   op \<in> set ops \<and> undoable now playlist_id user_id op"
  by (auto simp: get_latest_operation_def dest: latest_by_in_set)

text \<open>
  Claim C3, as amended. Let the client be available and let undo find a latest undoable
  operation. If the stored \<open>snapshot_after\<close> and the live token are both non-empty and
  differ, undo answers with the conflict error (status 409), the remote playlist is as it
  was (no call has been sent), and the operation is still in the log, not undone. The log
  has only lost its expired entries.
\<close>

theorem undo_conflict_leaves_remote_untouched:
  assumes "client_ok"
    and "get_latest_operation now playlist_id user_id (snd (cleanup_expired now (w_operations w)))
           = Some op"
    and "truthy (op_snapshot_after op)"
    and "truthy (playlist_snapshot_id (w_sp w))"
    and "playlist_snapshot_id (w_sp w) \<noteq> op_snapshot_after op"
  shows "\<exists>detail w'. undo_last_operation now playlist_id user_id client_ok w
             = (Inl (HTTPException 409 detail), w')
           \<and> w_sp w' = w_sp w
           \<and> w_operations w' = snd (cleanup_expired now (w_operations w))
           \<and> op \<in> set (w_operations w') \<and> \<not> op_undone op"
proof -
  from get_latest_operation_undoable [OF assms(2)]
  have "op \<in> set (snd (cleanup_expired now (w_operations w)))" "\<not> op_undone op"
    by (simp_all add: undoable_def)
  then show ?thesis
    using assms by (simp add: undo_last_operation_def Let_def)
qed

text \<open>
  A log entry with the token \<open>other\<close>, against the live token of the example playlist.
\<close>

theorem undo_conflict_leaves_remote_untouched_witness:
  "\<exists>detail w'. undo_last_operation 200 ''p1'' ''u1'' True (example_undo_world (Some ''other''))
             = (Inl (HTTPException 409 detail), w')
           \<and> w_sp w' = w_sp (example_undo_world (Some ''other''))
           \<and> w_operations w'
                = snd (cleanup_expired 200 (w_operations (example_undo_world (Some ''other''))))
           \<and> example_op (Some ''other'') \<in> set (w_operations w')
           \<and> \<not> op_undone (example_op (Some ''other''))"
proof (rule undo_conflict_leaves_remote_untouched)
  show "get_latest_operation 200 ''p1'' ''u1''
          (snd (cleanup_expired 200 (w_operations (example_undo_world (Some ''other'')))))
        = Some (example_op (Some ''other''))"
    by (simp add: example_undo_world_def example_op_def cleanup_expired_def
        get_latest_operation_def undoable_def us_day_def)
  show "truthy (op_snapshot_after (example_op (Some ''other'')))"
    by (simp add: example_op_def truthy_def)
  show "truthy (playlist_snapshot_id (w_sp (example_undo_world (Some ''other''))))"
    by (simp add: example_undo_world_def example_sp_def truthy_def playlist_snapshot_id_def)
  show "playlist_snapshot_id (w_sp (example_undo_world (Some ''other'')))
          \<noteq> op_snapshot_after (example_op (Some ''other''))"
    by (simp add: example_undo_world_def example_sp_def example_op_def playlist_snapshot_id_def)
qed simp

text \<open>
  Claim C3 as stated fails for an operation stored without a token: the live token differs
  from it, and undo replaces the playlist and marks the operation undone.
\<close>

theorem undo_without_stored_snapshot_counterexample:
  "get_latest_operation 200 ''p1'' ''u1''
      (snd (cleanup_expired 200 (w_operations (example_undo_world None)))) = Some (example_op None)
   \<and> playlist_snapshot_id (w_sp (example_undo_world None)) \<noteq> op_snapshot_after (example_op None)
   \<and> \<not> isl (fst (undo_last_operation 200 ''p1'' ''u1'' True (example_undo_world None)))
   \<and> sp_calls (w_sp (snd (undo_last_operation 200 ''p1'' ''u1'' True (example_undo_world None))))
       = [ReplaceItems [''spotify:track:2'', ''spotify:track:1'', ''spotify:track:3'']]
   \<and> map op_undone
        (w_operations (snd (undo_last_operation 200 ''p1'' ''u1'' True (example_undo_world None))))
       = [True]"
  by (simp add: undo_last_operation_def Let_def example_undo_world_def example_op_def
      cleanup_expired_def get_latest_operation_def undoable_def us_day_def truthy_def
      playlist_snapshot_id_def example_sp_def mark_undone_def playlist_replace_items_def
      add_batches_done)



subsection \<open>Running a job on a playlist already in target order\<close>

lemma item_tracks_append: "item_tracks (xs @ ys) = item_tracks xs @ item_tracks ys"
  by (induction xs) (simp_all add: item_tracks_def List.map_filter_simps split: option.splits)

lemma fetch_playlist_tracks_unfold:
  "fetch_playlist_tracks cancel_event now jid sp offset tracks jobs =
     (if cancel_event (AtFetch offset) then
        (None, update_job now jid (Some Cancelled) None (Some ''Cancelled by user'') None None jobs)
      else if length (take 100 (drop offset (sp_items sp))) < 100 then
        (Some (tracks @ item_tracks (take 100 (drop offset (sp_items sp)))), jobs)
      else
        fetch_playlist_tracks cancel_event now jid sp (offset + 100)
          (tracks @ item_tracks (take 100 (drop offset (sp_items sp))))
          (update_job now jid None None
             (Some (''Fetching tracks... ('' @
                    str_nat (length (tracks @ item_tracks (take 100 (drop offset (sp_items sp)))))
                    @ '' loaded)''))
             None None jobs))"
  by (subst fetch_playlist_tracks.simps) (simp add: Let_def)

lemma fetch_playlist_tracks_result:
  "\<exists>jobs'. fetch_playlist_tracks cancel_event now jid sp offset tracks jobs = (None, jobs')
     \<or> fetch_playlist_tracks cancel_event now jid sp offset tracks jobs
         = (Some (tracks @ item_tracks (drop offset (sp_items sp))), jobs')"
proof (induction cancel_event now jid sp offset tracks jobs rule: fetch_playlist_tracks.induct)
  case (1 cancel_event now jid sp offset tracks jobs)
  let ?items = "take 100 (drop offset (sp_items sp))"
  note eq = fetch_playlist_tracks_unfold [of cancel_event now jid sp offset tracks jobs]
  show ?case
  proof (cases "cancel_event (AtFetch offset)")
    case True
    then show ?thesis unfolding eq by simp
  next
    case nc: False
    show ?thesis
    proof (cases "length ?items < 100")
      case True
      then have short: "?items = drop offset (sp_items sp)" by (simp add: min_def split: if_splits)
      have "fetch_playlist_tracks cancel_event now jid sp offset tracks jobs
          = (Some (tracks @ item_tracks ?items), jobs)"
        by (simp only: eq nc True if_True if_False)
      then show ?thesis unfolding short by blast
    next
      case False
      have split: "drop offset (sp_items sp) = ?items @ drop (offset + 100) (sp_items sp)"
        by (metis add.commute append_take_drop_id drop_drop)
      have app: "(tracks @ item_tracks ?items) @ item_tracks (drop (offset + 100) (sp_items sp))
          = tracks @ item_tracks (drop offset (sp_items sp))"
        using split by (metis append.assoc item_tracks_append)
      have step: "fetch_playlist_tracks cancel_event now jid sp offset tracks jobs
        = fetch_playlist_tracks cancel_event now jid sp (offset + 100) (tracks @ item_tracks ?items)
           (update_job now jid None None
              (Some (''Fetching tracks... ('' @ str_nat (length (tracks @ item_tracks ?items))
                     @ '' loaded)'')) None None jobs)"
        by (simp only: eq nc False if_False)
      from "1.IH" [OF nc refl refl False]
      show ?thesis unfolding step app .
    qed
  qed
qed

lemma fetch_playlist_tracks_not_cancelled:
  "\<forall>c. \<not> cancel_event c \<Longrightarrow>
   fetch_playlist_tracks cancel_event now jid sp offset tracks jobs \<noteq> (None, jobs')"
proof (induction cancel_event now jid sp offset tracks jobs arbitrary: jobs'
    rule: fetch_playlist_tracks.induct)
  case (1 cancel_event now jid sp offset tracks jobs)
  let ?items = "take 100 (drop offset (sp_items sp))"
  note eq = fetch_playlist_tracks_unfold [of cancel_event now jid sp offset tracks jobs]
  from "1.prems" have nc: "\<not> cancel_event (AtFetch offset)" by simp
  show ?case
  proof (cases "length ?items < 100")
    case True
    have "fetch_playlist_tracks cancel_event now jid sp offset tracks jobs
          = (Some (tracks @ item_tracks ?items), jobs)"
      by (simp only: eq nc True if_True if_False)
    then show ?thesis by simp
  next
    case False
    have step: "fetch_playlist_tracks cancel_event now jid sp offset tracks jobs
        = fetch_playlist_tracks cancel_event now jid sp (offset + 100) (tracks @ item_tracks ?items)
           (update_job now jid None None
              (Some (''Fetching tracks... ('' @ str_nat (length (tracks @ item_tracks ?items))
                     @ '' loaded)'')) None None jobs)"
      by (simp only: eq nc False if_False)
    from "1.IH" [OF nc refl refl False "1.prems"]
    show ?thesis unfolding step .
  qed
qed

lemma calculate_moves_needed_same: "calculate_moves_needed xs xs = 0"
  by (simp add: calculate_moves_needed_def zip_same_conv_map filter_map comp_def)

lemma preserve_sorted_noop:
  assumes g: "get_sort_key_function sort_by direction = Inr (key_func, reverse)"
    and sorted: "sorted_py key_func reverse tracks = tracks"
  shows "\<exists>s'. sort_playlist_preserve_dates sp tracks sort_by direction progress_callback
            should_cancel s = (Returned, sp, s')"
proof -
  let ?si = "sorted_py (\<lambda>x. snd (snd x)) reverse (indexed_tracks key_func tracks)"
  have si: "?si = indexed_tracks key_func tracks"
    using sorted by (rule sorted_indexed_id)
  have "map fst ?si = [0..<length ?si]"
    unfolding si by (simp add: map_fst_indexed_tracks length_indexed_tracks)
  then have "length (filter (\<lambda>(i, orig_idx, _, _). orig_idx \<noteq> i) (enumerate 0 ?si)) = 0"
    by (simp only: moves_needed_zero_iff)
  then show ?thesis
    by (simp add: sort_playlist_preserve_dates_def g Let_def)
qed

lemma update_job_completed:
  "\<forall>j \<in> set (update_job now jid (Some Completed) p m e tot jobs).
     job_id j = jid \<longrightarrow> job_status j = Completed"
  by (auto simp: update_job_def update_row_def Let_def split: option.splits)

lemma cleanup_expired_subset: "set (snd (cleanup_expired now ops)) \<subseteq> set ops"
  by (auto simp: cleanup_expired_def)

lemma run_sort_job_body_sorted_preserve:
  assumes g: "get_sort_key_function (task_sort_by t) (task_direction t) = Inr (key_func, reverse)"
    and meth: "task_method t = ''preserve''"
    and sorted: "sorted_py key_func reverse (item_tracks (sp_items (w_sp w)))
                  = item_tracks (sp_items (w_sp w))"
  shows "\<exists>out w1. run_sort_job_body now est t cancel_event client_ok w = (out, w1)
      \<and> w_sp w1 = w_sp w
      \<and> (w_operations w1 = w_operations w
          \<or> (out = Returned
              \<and> (\<exists>op. w_operations w1 = snd (cleanup_expired now (w_operations w)) @ [op]
                    \<and> op_type op = ''sort_reorder'' \<and> \<not> op_changes_made op)
              \<and> (\<forall>j \<in> set (w_jobs w1). job_id j = task_job_id t \<longrightarrow> job_status j = Completed)))
      \<and> (client_ok \<and> (\<forall>c. \<not> cancel_event c) \<longrightarrow>
            (out = Returned
              \<and> (\<exists>op. w_operations w1 = snd (cleanup_expired now (w_operations w)) @ [op]
                    \<and> op_type op = ''sort_reorder'' \<and> \<not> op_changes_made op)
              \<and> (\<forall>j \<in> set (w_jobs w1). job_id j = task_job_id t \<longrightarrow> job_status j = Completed)))"
proof -
  let ?tracks = "item_tracks (sp_items (w_sp w))"
  let ?jobs0 = "update_job now (task_job_id t) (Some InProgress) None
                  (Some ''Fetching playlist tracks...'') None None (w_jobs w)"
  obtain jobs1 where F:
    "fetch_playlist_tracks cancel_event now (task_job_id t) (w_sp w) 0 [] ?jobs0 = (None, jobs1)
     \<or> fetch_playlist_tracks cancel_event now (task_job_id t) (w_sp w) 0 [] ?jobs0
         = (Some ?tracks, jobs1)"
    using fetch_playlist_tracks_result [of cancel_event now "task_job_id t" "w_sp w" 0 "[]" ?jobs0]
    by auto
  have nocancel: "\<forall>c. \<not> cancel_event c \<Longrightarrow>
    fetch_playlist_tracks cancel_event now (task_job_id t) (w_sp w) 0 [] ?jobs0
         = (Some ?tracks, jobs1)"
    using F fetch_playlist_tracks_not_cancelled by blast
  have P: "out = Returned \<and> sp1 = w_sp w"
    if "sort_playlist_preserve_dates (w_sp w) ?tracks (task_sort_by t) (task_direction t)
          cb sc (s :: job list) = (out, sp1, s')" for cb sc s out sp1 s'
    using preserve_sorted_noop [OF g sorted, of "w_sp w" cb sc s] that by auto
  have T: "calculate_moves_needed ?tracks ?tracks = 0" by (rule calculate_moves_needed_same)
  note defs = run_sort_job_body_def execute_sort_def Let_def g meth sorted T record_operation_def
  show ?thesis
  proof (cases client_ok)
    case False
    then show ?thesis by (simp add: run_sort_job_body_def Let_def)
  next
    case ok: True
    from F show ?thesis
    proof
      assume f: "fetch_playlist_tracks cancel_event now (task_job_id t) (w_sp w) 0 [] ?jobs0
                  = (None, jobs1)"
      with nocancel have "\<not> (\<forall>c. \<not> cancel_event c)" by auto
      then show ?thesis using ok f by (auto simp: run_sort_job_body_def Let_def)
    next
      assume f: "fetch_playlist_tracks cancel_event now (task_job_id t) (w_sp w) 0 [] ?jobs0
                  = (Some ?tracks, jobs1)"
      show ?thesis
      proof (cases "cancel_event AtFinal")
        case True
        then have "\<not> (\<forall>c. \<not> cancel_event c)" by auto
        then show ?thesis
          using ok f True by (auto simp: defs split: prod.splits outcome.splits dest!: P)
      next
        case False
        then show ?thesis
          using ok f update_job_completed
          by (auto simp: defs split: prod.splits outcome.splits dest!: P)
      qed
    qed
  qed
qed

text \<open>
  Claim C5. Let the sort field be supported and let the tracks of the playlist be already
  in target order: the stable sort leaves the list as it is. Then the preserve strategy
  returns with the remote playlist exactly as it was, so it has sent no call, and a
  preserve job leaves the remote playlist as it was and adds no log entry with
  \<open>changes_made\<close>; when the client is available and the job is not cancelled, the job is
  completed and the log gains exactly one entry, a \<open>sort_reorder\<close> with
  \<open>changes_made = false\<close>.
\<close>

theorem preserve_on_sorted_playlist_is_noop:
  assumes field: "task_sort_by t \<in> set sort_fields"
    and meth: "task_method t = ''preserve''"
    and sorted: "sorted_tracks (task_sort_by t) (task_direction t)
                   (item_tracks (sp_items (w_sp w))) = Inr (item_tracks (sp_items (w_sp w)))"
  shows "(\<forall>sp. \<exists>s'. sort_playlist_preserve_dates sp (item_tracks (sp_items (w_sp w)))
             (task_sort_by t) (task_direction t) progress_callback should_cancel s
               = (Returned, sp, s'))
     \<and> w_sp (run_sort_job now est t cancel_event client_ok w) = w_sp w
     \<and> (\<forall>op \<in> set (w_operations (run_sort_job now est t cancel_event client_ok w)).
           op \<in> set (w_operations w) \<or> \<not> op_changes_made op)
     \<and> (client_ok \<and> (\<forall>c. \<not> cancel_event c) \<longrightarrow>
           (\<exists>op. w_operations (run_sort_job now est t cancel_event client_ok w)
                   = snd (cleanup_expired now (w_operations w)) @ [op]
                 \<and> op_type op = ''sort_reorder'' \<and> \<not> op_changes_made op)
           \<and> (\<forall>j \<in> set (w_jobs (run_sort_job now est t cancel_event client_ok w)).
                 job_id j = task_job_id t \<longrightarrow> job_status j = Completed))"
proof -
  from supported_field [OF field] obtain key_func where
    g: "get_sort_key_function (task_sort_by t) (task_direction t)
          = Inr (key_func, task_direction t = ''desc'')"
    by blast
  from sorted have s': "sorted_py key_func (task_direction t = ''desc'')
      (item_tracks (sp_items (w_sp w))) = item_tracks (sp_items (w_sp w))"
    by (simp add: sorted_tracks_def g)
  from run_sort_job_body_sorted_preserve [OF g meth s', of now est cancel_event client_ok]
  obtain out w1 where b:
    "run_sort_job_body now est t cancel_event client_ok w = (out, w1)"
    "w_sp w1 = w_sp w"
    "w_operations w1 = w_operations w
       \<or> (out = Returned
           \<and> (\<exists>op. w_operations w1 = snd (cleanup_expired now (w_operations w)) @ [op]
                 \<and> op_type op = ''sort_reorder'' \<and> \<not> op_changes_made op)
           \<and> (\<forall>j \<in> set (w_jobs w1). job_id j = task_job_id t \<longrightarrow> job_status j = Completed))"
    "client_ok \<and> (\<forall>c. \<not> cancel_event c) \<longrightarrow>
       (out = Returned
           \<and> (\<exists>op. w_operations w1 = snd (cleanup_expired now (w_operations w)) @ [op]
                 \<and> op_type op = ''sort_reorder'' \<and> \<not> op_changes_made op)
           \<and> (\<forall>j \<in> set (w_jobs w1). job_id j = task_job_id t \<longrightarrow> job_status j = Completed))"
    by blast
  let ?w' = "run_sort_job now est t cancel_event client_ok w"
  have sp: "w_sp ?w' = w_sp w"
    using b(1,2) by (simp add: run_sort_job_def Let_def split: outcome.splits)
  have ops: "w_operations ?w' = w_operations w1"
    using b(1) by (simp add: run_sort_job_def Let_def split: outcome.splits)
  have jobs: "out = Returned \<Longrightarrow> w_jobs ?w' = w_jobs w1"
    using b(1) by (simp add: run_sort_job_def Let_def)
  have c1: "\<forall>sp. \<exists>s'. sort_playlist_preserve_dates sp (item_tracks (sp_items (w_sp w)))
             (task_sort_by t) (task_direction t) progress_callback should_cancel s
               = (Returned, sp, s')"
    by (intro allI preserve_sorted_noop [OF g s'])
  have c3: "\<forall>op \<in> set (w_operations ?w'). op \<in> set (w_operations w) \<or> \<not> op_changes_made op"
    using b(3) cleanup_expired_subset [of now "w_operations w"] unfolding ops by auto
  have c4: "client_ok \<and> (\<forall>c. \<not> cancel_event c) \<longrightarrow>
           (\<exists>op. w_operations ?w' = snd (cleanup_expired now (w_operations w)) @ [op]
                 \<and> op_type op = ''sort_reorder'' \<and> \<not> op_changes_made op)
           \<and> (\<forall>j \<in> set (w_jobs ?w'). job_id j = task_job_id t \<longrightarrow> job_status j = Completed)"
    using b(4) jobs unfolding ops by auto
  from c1 sp c3 c4 show ?thesis by blast
qed

lemma example_sorted_by_id:
  "sorted_tracks ''duration'' ''asc'' (item_tracks (sp_items example_sp))
     = Inr (item_tracks (sp_items example_sp))"
  by (simp add: sorted_tracks_def get_sort_key_function_def sorted_py_def example_sp_def
      item_tracks_def item_track_def example_track_def key_duration_def)

text \<open>
  The example playlist, whose three tracks have the same duration, sorted by duration.
\<close>

theorem preserve_on_sorted_playlist_is_noop_witness:
  "w_sp (run_sort_job 100 ''10'' (example_task ''duration'' ''preserve'') (\<lambda>c. False) True
           (example_world [example_job ''a'' ''p1'' ''u1'' Pending 90])) = example_sp
   \<and> (\<exists>op. w_operations (run_sort_job 100 ''10'' (example_task ''duration'' ''preserve'')
                 (\<lambda>c. False) True (example_world [example_job ''a'' ''p1'' ''u1'' Pending 90]))
              = [op] \<and> op_type op = ''sort_reorder'' \<and> \<not> op_changes_made op)"
proof -
  let ?t = "example_task ''duration'' ''preserve''"
  let ?w = "example_world [example_job ''a'' ''p1'' ''u1'' Pending 90]"
  have a: "task_sort_by ?t \<in> set sort_fields" by (simp add: example_task_def sort_fields_def)
  have b: "task_method ?t = ''preserve''" by (simp add: example_task_def)
  have c: "sorted_tracks (task_sort_by ?t) (task_direction ?t)
                   (item_tracks (sp_items (w_sp ?w))) = Inr (item_tracks (sp_items (w_sp ?w)))"
    using example_sorted_by_id by (simp add: example_task_def example_world_def)
  from preserve_on_sorted_playlist_is_noop [OF a b c, of None None "()" 100 "''10''"
      "\<lambda>c. False" True]
  show ?thesis by (simp add: example_world_def cleanup_expired_def)
qed

end
